theory Spec2Isabelle
  imports Complex_Main "HOL-Library.AList"
begin

section \<open>Gemini MCP server: session registry, router, shutdown, tool boundary, logger\<close>

text \<open>
  A shallow embedding of the HTTP entry point (http-server.ts), the stdio entry point
  (index.ts), the callGemini tool (tools/geminiTool.ts), the API client's error mapping
  (api/geminiClient.js), the error helpers (utils/errors.js) and the logger
  (utils/logger.js). Calls into the MCP SDK, Express, zod and the Gemini SDK are
  external: their outcome is a parameter of the model, and what the model assumes about
  them is written where it is used.
\<close>

subsection \<open>Log entries\<close>

datatype level = ERROR | WARN | INFO | DEBUG

text \<open>A log call: level, message, and the session id of the metadata when there is one.\<close>

record log_entry =
  lvl :: level
  msg :: string
  meta_sessionId :: "string option"

definition logged :: "level \<Rightarrow> string \<Rightarrow> string option \<Rightarrow> log_entry" where
  "logged l m s = \<lparr>lvl = l, msg = m, meta_sessionId = s\<rparr>"

subsection \<open>The session registry\<close>

text \<open>
  \<^verbatim>\<open>const transports: Record<string, StreamableHTTPServerTransport> = {};\<close>

  The object's own properties are an association list in insertion order; a transport
  instance is identified by a number. The object literal inherits from
  \<^verbatim>\<open>Object.prototype\<close>, so a property read \<^verbatim>\<open>transports[key]\<close> with no own property
  of that name yields the inherited member when the key names one, and
  \<^verbatim>\<open>undefined\<close> otherwise.
\<close>

type_synonym sid = string
type_synonym tid = nat
type_synonym registry = "(sid \<times> tid) list"

definition objectPrototypeKeys :: "string list" where
  "objectPrototypeKeys =
     [''constructor'', ''__defineGetter__'', ''__defineSetter__'', ''hasOwnProperty'',
      ''__lookupGetter__'', ''__lookupSetter__'', ''isPrototypeOf'',
      ''propertyIsEnumerable'', ''toString'', ''valueOf'', ''__proto__'',
      ''toLocaleString'']"

datatype propval = Undefined | OwnTransport tid | InheritedMember string

definition getProp :: "registry \<Rightarrow> string \<Rightarrow> propval" where
  "getProp transports key =
     (case map_of transports key of
        Some t \<Rightarrow> OwnTransport t
      | None \<Rightarrow> if key \<in> set objectPrototypeKeys then InheritedMember key else Undefined)"

fun truthy :: "propval \<Rightarrow> bool" where
  "truthy Undefined = False"
| "truthy (OwnTransport t) = True"
| "truthy (InheritedMember k) = True"

text \<open>A \<^verbatim>\<open>string | undefined\<close> in a condition: undefined and the empty string are falsy.\<close>

fun truthy_str :: "string option \<Rightarrow> bool" where
  "truthy_str None = False"
| "truthy_str (Some s) = (s \<noteq> [])"

text \<open>
  \<^verbatim>\<open>onsessioninitialized: (newSessionId) => {
    transports[newSessionId] = transport;
    logger.info('Session initialized', { sessionId: newSessionId }); }\<close>

  The SDK calls it with the value of \<^verbatim>\<open>sessionIdGenerator()\<close>, that is of
  \<^verbatim>\<open>randomUUID()\<close>: a UUID, so never \<^verbatim>\<open>__proto__\<close>, the one key for which the
  assignment would create no own property.
\<close>

definition onsessioninitialized :: "tid \<Rightarrow> sid \<Rightarrow> registry \<Rightarrow> registry \<times> log_entry list" where
  "onsessioninitialized transport newSessionId transports =
     (AList.update newSessionId transport transports,
      [logged INFO ''Session initialized'' (Some newSessionId)])"

text \<open>
  \<^verbatim>\<open>transport.onclose = () => {
    if (transport.sessionId && transports[transport.sessionId]) {
      delete transports[transport.sessionId];
      logger.info('Session closed', { sessionId: transport.sessionId }); } };\<close>

  The first argument is the transport's \<^verbatim>\<open>sessionId\<close> field when the handler runs.
  \<^verbatim>\<open>delete\<close> removes an own property only.
\<close>

definition onclose :: "sid option \<Rightarrow> registry \<Rightarrow> registry \<times> log_entry list" where
  "onclose sessionId transports =
     (case sessionId of
        None \<Rightarrow> (transports, [])
      | Some s \<Rightarrow>
          if truthy_str (Some s) \<and> truthy (getProp transports s)
          then (AList.delete s transports, [logged INFO ''Session closed'' (Some s)])
          else (transports, []))"

subsection \<open>The request router\<close>

text \<open>
  What the handler of \<^verbatim>\<open>app.all('/mcp', ...)\<close> reads of a request: the value of
  \<^verbatim>\<open>req.headers['mcp-session-id']\<close> (\<open>None\<close> is \<^verbatim>\<open>undefined\<close>: no such header),
  \<^verbatim>\<open>req.method\<close> and \<^verbatim>\<open>req.body\<close>.
\<close>

record 'b request =
  req_sessionId :: "string option"
  req_method :: string
  req_body :: 'b

text \<open>
  The outcome of \<^verbatim>\<open>await transport.handleRequest(req, res, req.body)\<close>: whether the
  transport has sent the response headers, and the message of the error it throws, if any.
\<close>

record handled =
  headersSent :: bool
  thrown :: "string option"

text \<open>
  The external calls of the handler: \<^verbatim>\<open>isInitializeRequest(req.body)\<close>,
  \<^verbatim>\<open>mcpServer.connect(transport)\<close> (\<open>Some m\<close>: it rejects with an error of message \<open>m\<close>)
  and \<^verbatim>\<open>transport.handleRequest\<close>.
\<close>

record 'b sdk =
  isInitializeRequest :: "'b \<Rightarrow> bool"
  connect :: "tid \<Rightarrow> string option"
  handleRequest :: "tid \<Rightarrow> 'b request \<Rightarrow> handled"

text \<open>
  What the handler does, in order: a log call, \<^verbatim>\<open>new StreamableHTTPServerTransport\<close> with
  the two callbacks of the registry, \<^verbatim>\<open>mcpServer.connect(transport)\<close>,
  \<^verbatim>\<open>transport.handleRequest(req, res, req.body)\<close>, and \<^verbatim>\<open>res.status(code).json(body)\<close>.
  A response body is a JSON object of string fields.
\<close>

datatype 'b effect =
    Log log_entry
  | NewTransport tid
  | Connect tid
  | HandleRequest tid "'b request"
  | Respond nat "(string \<times> string) list"

text \<open>The value of \<^verbatim>\<open>sessionId && transports[sessionId]\<close>, up to truthiness.\<close>

definition and_lookup :: "string option \<Rightarrow> registry \<Rightarrow> propval" where
  "and_lookup sessionId transports =
     (case sessionId of
        None \<Rightarrow> Undefined
      | Some s \<Rightarrow> if s = [] then Undefined else getProp transports s)"

text \<open>
  \<^verbatim>\<open>await transport.handleRequest(req, res, req.body)\<close> for the value \<open>transport\<close> was
  assigned: the effects, \<^verbatim>\<open>res.headersSent\<close> afterwards, and the error thrown. A member
  inherited from \<^verbatim>\<open>Object.prototype\<close> has no \<^verbatim>\<open>handleRequest\<close>: the call throws a
  TypeError before anything is written.
\<close>

fun call_handleRequest ::
  "'b sdk \<Rightarrow> propval \<Rightarrow> 'b request \<Rightarrow> 'b effect list \<times> bool \<times> string option" where
  "call_handleRequest sdk (OwnTransport t) req =
     ([HandleRequest t req], headersSent (handleRequest sdk t req), thrown (handleRequest sdk t req))"
| "call_handleRequest sdk (InheritedMember k) req =
     ([], False, Some ''transport.handleRequest is not a function'')"
| "call_handleRequest sdk Undefined req =
     ([], False, Some ''Cannot read properties of undefined'')"

text \<open>
  The body of the \<^verbatim>\<open>try\<close> block. \<open>fresh\<close> is the identity of the transport that
  \<^verbatim>\<open>new StreamableHTTPServerTransport(...)\<close> would create. The result is the effects,
  \<^verbatim>\<open>res.headersSent\<close> at the end, and the error that leaves the block, if any.
\<close>

definition try_body ::
  "'b sdk \<Rightarrow> registry \<Rightarrow> tid \<Rightarrow> 'b request \<Rightarrow> 'b effect list \<times> bool \<times> string option" where
  "try_body sdk transports fresh req =
     (let sessionId = req_sessionId req in
      if truthy (and_lookup sessionId transports) then
        call_handleRequest sdk (and_lookup sessionId transports) req
      else if \<not> truthy_str sessionId \<and> req_method req = ''POST''
              \<and> isInitializeRequest sdk (req_body req) then
        (case connect sdk fresh of
           Some e \<Rightarrow> ([NewTransport fresh, Connect fresh], False, Some e)
         | None \<Rightarrow>
             (case call_handleRequest sdk (OwnTransport fresh) req of
                (effs, hs, th) \<Rightarrow> ([NewTransport fresh, Connect fresh] @ effs, hs, th)))
      else
        ([Log (logged WARN ''Invalid MCP request'' sessionId),
          Respond 400 [(''error'', ''Invalid MCP request'')]], True, None))"

text \<open>
  \<^verbatim>\<open>catch (error) {
    logger.error('Error handling MCP request', { error: ..., sessionId });
    if (!res.headersSent) { res.status(500).json({ error: "Internal server error" }); } }\<close>
\<close>

definition catch_block :: "string option \<Rightarrow> bool \<Rightarrow> 'b effect list" where
  "catch_block sessionId sent =
     Log (logged ERROR ''Error handling MCP request'' sessionId) #
     (if \<not> sent then [Respond 500 [(''error'', ''Internal server error'')]] else [])"

definition mcp_handler :: "'b sdk \<Rightarrow> registry \<Rightarrow> tid \<Rightarrow> 'b request \<Rightarrow> 'b effect list" where
  "mcp_handler sdk transports fresh req =
     (case try_body sdk transports fresh req of
        (effs, sent, None) \<Rightarrow> effs
      | (effs, sent, Some e) \<Rightarrow> effs @ catch_block (req_sessionId req) sent)"

text \<open>Requests and SDK behaviours for the worked examples.\<close>

definition quiet_sdk :: "bool sdk" where
  "quiet_sdk = \<lparr>isInitializeRequest = (\<lambda>b. b), connect = (\<lambda>t. None),
     handleRequest = (\<lambda>t r. \<lparr>headersSent = True, thrown = None\<rparr>)\<rparr>"

definition throwing_sdk :: "bool \<Rightarrow> bool sdk" where
  "throwing_sdk sent = \<lparr>isInitializeRequest = (\<lambda>b. b), connect = (\<lambda>t. None),
     handleRequest = (\<lambda>t r. \<lparr>headersSent = sent, thrown = Some ''boom''\<rparr>)\<rparr>"

definition init_post :: "string option \<Rightarrow> bool request" where
  "init_post h = \<lparr>req_sessionId = h, req_method = ''POST'', req_body = True\<rparr>"

text \<open>The three outcomes, as effect lists: delegation to a transport (with what the
  \<^verbatim>\<open>catch\<close> block adds when the transport throws), and the rejection.\<close>

definition delegate :: "'b sdk \<Rightarrow> string option \<Rightarrow> tid \<Rightarrow> 'b request \<Rightarrow> 'b effect list" where
  "delegate sdk sessionId t req =
     HandleRequest t req #
     (case thrown (handleRequest sdk t req) of
        None \<Rightarrow> []
      | Some e \<Rightarrow> catch_block sessionId (headersSent (handleRequest sdk t req)))"

definition reject :: "string option \<Rightarrow> 'b effect list" where
  "reject sessionId =
     [Log (logged WARN ''Invalid MCP request'' sessionId),
      Respond 400 [(''error'', ''Invalid MCP request'')]]"

subsection \<open>The life of the registry\<close>

text \<open>
  The registry changes only through the two callbacks, which the SDK calls. The state
  also holds the \<^verbatim>\<open>sessionId\<close> field of every transport, which the close handler reads.
  \<open>SessionInitialized t s\<close>: handling an initialization request on transport \<open>t\<close>, the
  SDK sets \<^verbatim>\<open>t.sessionId\<close> to \<open>s\<close>, the value of \<^verbatim>\<open>sessionIdGenerator()\<close>, and calls
  \<^verbatim>\<open>onsessioninitialized(s)\<close>. \<open>Closed t\<close>: the SDK calls \<^verbatim>\<open>t.onclose()\<close>.
\<close>

record server =
  st_transports :: registry
  st_sessionId :: "tid \<Rightarrow> sid option"
  st_log :: "log_entry list"

datatype sdk_event = SessionInitialized tid sid | Closed tid

fun sdk_step :: "server \<Rightarrow> sdk_event \<Rightarrow> server" where
  "sdk_step st (SessionInitialized t s) =
     (case onsessioninitialized t s (st_transports st) of
        (r, l) \<Rightarrow> st\<lparr>st_transports := r, st_sessionId := (st_sessionId st)(t := Some s),
                     st_log := st_log st @ l\<rparr>)"
| "sdk_step st (Closed t) =
     (case onclose (st_sessionId st t) (st_transports st) of
        (r, l) \<Rightarrow> st\<lparr>st_transports := r, st_log := st_log st @ l\<rparr>)"

definition started :: server where
  "started = \<lparr>st_transports = [], st_sessionId = (\<lambda>t. None), st_log = []\<rparr>"

definition run_events :: "sdk_event list \<Rightarrow> server" where
  "run_events evs = foldl sdk_step started evs"

text \<open>
  What the model assumes of the SDK and of \<^verbatim>\<open>randomUUID()\<close>: every generated id is
  non-empty, names no member of \<^verbatim>\<open>Object.prototype\<close> and was never generated before, and
  a transport is initialized at most once. \<open>ss\<close> and \<open>ts\<close> are the ids and transports
  already used.
\<close>

fun fresh_ids :: "sid list \<Rightarrow> tid list \<Rightarrow> sdk_event list \<Rightarrow> bool" where
  "fresh_ids ss ts [] = True"
| "fresh_ids ss ts (SessionInitialized t s # evs) =
     (s \<noteq> [] \<and> s \<notin> set objectPrototypeKeys \<and> s \<notin> set ss \<and> t \<notin> set ts
      \<and> fresh_ids (s # ss) (t # ts) evs)"
| "fresh_ids ss ts (Closed t # evs) = fresh_ids ss ts evs"

text \<open>
  The claim's words: transport \<open>t\<close> was registered for \<open>k\<close> by the initialization
  callback, and its close handler has not run since.
\<close>

fun registered_live :: "sdk_event list \<Rightarrow> sid \<Rightarrow> tid \<Rightarrow> bool" where
  "registered_live [] k t = False"
| "registered_live (SessionInitialized t' s # evs) k t =
     ((t' = t \<and> s = k \<and> Closed t \<notin> set evs) \<or> registered_live evs k t)"
| "registered_live (Closed t' # evs) k t = registered_live evs k t"

definition two_sessions :: "sdk_event list" where
  "two_sessions = [SessionInitialized 1 ''a1'', SessionInitialized 2 ''b2'', Closed 1]"

subsection \<open>Process-wide shutdown of the HTTP server\<close>

text \<open>
  The calls the shutdown makes on the SDK's objects, in order:
  \<^verbatim>\<open>transports[sessionId].close()\<close> and \<^verbatim>\<open>mcpServer.close()\<close>.
\<close>

datatype call = CloseTransport tid | CloseServer

text \<open>
  The process: the registry state, the calls made so far, the status passed to
  \<^verbatim>\<open>process.exit\<close> once it has run, and the activations of \<^verbatim>\<open>handleShutdown\<close> that
  wait at an \<^verbatim>\<open>await\<close>.
\<close>

datatype cont = AwaitTransportClose sid tid "sid list" | AwaitServerClose

record proc = server +
  p_calls :: "call list"
  p_exit :: "int option"
  p_suspended :: "cont list"

text \<open>
  What \<^verbatim>\<open>close()\<close> of a transport does is the SDK's: whether it runs the transport's
  \<^verbatim>\<open>onclose\<close> handler, which it does inside the call, before the promise is handed
  back, and whether that promise rejects (\<open>Some m\<close>: with an error of message \<open>m\<close>).
  Likewise for \<^verbatim>\<open>mcpServer.close()\<close>.
\<close>

record closing =
  fires_onclose :: bool
  rejects :: "string option"

record shutdown_env =
  transport_close :: "tid \<Rightarrow> closing"
  server_close :: "string option"

definition log_call :: "log_entry \<Rightarrow> proc \<Rightarrow> proc" where
  "log_call e p = p\<lparr>st_log := st_log p @ [e]\<rparr>"

definition run_onclose :: "tid \<Rightarrow> proc \<Rightarrow> proc" where
  "run_onclose t p =
     (case onclose (st_sessionId p t) (st_transports p) of
        (r, l) \<Rightarrow> p\<lparr>st_transports := r, st_log := st_log p @ l\<rparr>)"

text \<open>
  The call \<^verbatim>\<open>transports[sessionId].close()\<close> itself: the call is made, and the close
  handler, when \<^verbatim>\<open>close()\<close> runs it, has run by the time the call returns its promise.
\<close>

definition call_close :: "shutdown_env \<Rightarrow> tid \<Rightarrow> proc \<Rightarrow> proc" where
  "call_close env t p =
     (let p1 = p\<lparr>p_calls := p_calls p @ [CloseTransport t]\<rparr>
      in if fires_onclose (transport_close env t) then run_onclose t p1 else p1)"

text \<open>
  \<^verbatim>\<open>for (const sessionId in transports) { try { await transports[sessionId].close(); ...\<close>

  The loop from its head up to the next \<^verbatim>\<open>await\<close>. \<^verbatim>\<open>for ... in\<close> visits the keys the
  object had when the loop began, in order, and skips a key deleted before its turn. After
  the last key the function goes on to \<^verbatim>\<open>await mcpServer.close()\<close>.
\<close>

fun forIn :: "shutdown_env \<Rightarrow> sid list \<Rightarrow> proc \<Rightarrow> cont \<times> proc" where
  "forIn env [] p = (AwaitServerClose, p\<lparr>p_calls := p_calls p @ [CloseServer]\<rparr>)"
| "forIn env (sessionId # rest) p =
     (case map_of (st_transports p) sessionId of
        None \<Rightarrow> forIn env rest p
      | Some t \<Rightarrow> (AwaitTransportClose sessionId t rest, call_close env t p))"

text \<open>
  \<^verbatim>\<open>async function handleShutdown() {
    logger.info('Shutting down HTTP server...');
    for (const sessionId in transports) { ...\<close>: the function up to its first \<^verbatim>\<open>await\<close>.
\<close>

definition handleShutdown_enter :: "shutdown_env \<Rightarrow> proc \<Rightarrow> cont \<times> proc" where
  "handleShutdown_enter env p =
     (let p1 = log_call (logged INFO ''Shutting down HTTP server...'' None) p
      in forIn env (map fst (st_transports p1)) p1)"

text \<open>
  An activation goes on when the promise it awaits settles.
  \<^verbatim>\<open>try { await transports[sessionId].close();
          logger.debug('Closed transport', { sessionId });
    } catch (error) { logger.warn('Error closing transport', { sessionId, ... }); }\<close>
  and then the loop goes to its next key;
  \<^verbatim>\<open>try { await mcpServer.close(); logger.info('MCP server closed successfully');
    } catch (error) { logger.error('Error closing MCP server', ...); }
    process.exit(0);\<close>
\<close>

definition settled_close :: "shutdown_env \<Rightarrow> sid \<Rightarrow> tid \<Rightarrow> proc \<Rightarrow> proc" where
  "settled_close env sessionId t p =
     (case rejects (transport_close env t) of
        None \<Rightarrow> log_call (logged DEBUG ''Closed transport'' (Some sessionId)) p
      | Some m \<Rightarrow> log_call (logged WARN ''Error closing transport'' (Some sessionId)) p)"

definition settled_server_close :: "shutdown_env \<Rightarrow> proc \<Rightarrow> proc" where
  "settled_server_close env p =
     (case server_close env of
        None \<Rightarrow> log_call (logged INFO ''MCP server closed successfully'' None) p
      | Some m \<Rightarrow> log_call (logged ERROR ''Error closing MCP server'' None) p)"

fun resume :: "shutdown_env \<Rightarrow> cont \<Rightarrow> proc \<Rightarrow> cont option \<times> proc" where
  "resume env (AwaitTransportClose sessionId t rest) p =
     (case forIn env rest (settled_close env sessionId t p) of (k, p3) \<Rightarrow> (Some k, p3))"
| "resume env AwaitServerClose p = (None, (settled_server_close env p)\<lparr>p_exit := Some 0\<rparr>)"

fun cont_size :: "cont \<Rightarrow> nat" where
  "cont_size AwaitServerClose = 0"
| "cont_size (AwaitTransportClose sessionId t rest) = Suc (length rest)"

lemma forIn_size: "cont_size (fst (forIn env ks p)) \<le> length ks"
  by (induction ks arbitrary: p) (auto split: option.splits intro: le_SucI)

lemma forIn_size_eq: "forIn env ks p = (k', p') \<Longrightarrow> cont_size k' \<le> length ks"
  using forIn_size [of env ks p] by simp

lemma resume_size: "resume env k p = (Some k', p') \<Longrightarrow> cont_size k' < cont_size k"
  by (cases k) (auto simp: Let_def less_Suc_eq_le split: prod.splits dest!: forIn_size_eq)

text \<open>
  One activation run to its end with nothing else in between: every awaited promise
  settles before any other event of the process.
\<close>

function complete :: "shutdown_env \<Rightarrow> cont \<Rightarrow> proc \<Rightarrow> proc" where
  "complete env k p =
     (case resume env k p of
        (None, p') \<Rightarrow> p'
      | (Some k', p') \<Rightarrow> complete env k' p')"
  by pat_completeness auto
termination
  by (relation "measure (\<lambda>(env, k, p). cont_size k)") (auto dest: resume_size [OF sym])

declare complete.simps [simp del]

definition handleShutdown :: "shutdown_env \<Rightarrow> proc \<Rightarrow> proc" where
  "handleShutdown env p = (case handleShutdown_enter env p of (k, p1) \<Rightarrow> complete env k p1)"

text \<open>
  The listeners that \<^verbatim>\<open>setupGracefulShutdown()\<close> registers on the process:
  \<^verbatim>\<open>process.on('SIGINT', handleShutdown); process.on('SIGTERM', handleShutdown);
  process.on('uncaughtException', (error) => {
    logger.error('Uncaught exception', ...); handleShutdown(); });
  process.on('unhandledRejection', (reason) => {
    logger.error('Unhandled rejection', { reason }); });\<close>
  A call of the async \<^verbatim>\<open>handleShutdown\<close> runs it up to its first \<^verbatim>\<open>await\<close> and leaves
  the activation suspended.
\<close>

datatype signal = SIGINT | SIGTERM | UncaughtException string | UnhandledRejection string

definition call_handleShutdown :: "shutdown_env \<Rightarrow> proc \<Rightarrow> proc" where
  "call_handleShutdown env p =
     (case handleShutdown_enter env p of
        (k, p1) \<Rightarrow> p1\<lparr>p_suspended := p_suspended p1 @ [k]\<rparr>)"

fun http_on :: "shutdown_env \<Rightarrow> signal \<Rightarrow> proc \<Rightarrow> proc" where
  "http_on env SIGINT p = call_handleShutdown env p"
| "http_on env SIGTERM p = call_handleShutdown env p"
| "http_on env (UncaughtException m) p =
     call_handleShutdown env (log_call (logged ERROR ''Uncaught exception'' None) p)"
| "http_on env (UnhandledRejection m) p =
     log_call (logged ERROR ''Unhandled rejection'' None) p"

text \<open>
  The event loop: a process event is given to its listener, or the promise awaited by the
  \<open>i\<close>-th suspended activation settles and that activation goes on to its next
  \<^verbatim>\<open>await\<close> or to \<^verbatim>\<open>process.exit(0)\<close>. After \<^verbatim>\<open>process.exit\<close> nothing runs.
\<close>

datatype event = Emit signal | Settle nat

fun step :: "shutdown_env \<Rightarrow> proc \<Rightarrow> event \<Rightarrow> proc" where
  "step env p (Emit s) = (case p_exit p of Some c \<Rightarrow> p | None \<Rightarrow> http_on env s p)"
| "step env p (Settle i) =
     (case p_exit p of
        Some c \<Rightarrow> p
      | None \<Rightarrow>
          if i < length (p_suspended p) then
            (case resume env (p_suspended p ! i) p of
               (None, p') \<Rightarrow>
                 p'\<lparr>p_suspended := take i (p_suspended p') @ drop (Suc i) (p_suspended p')\<rparr>
             | (Some k, p') \<Rightarrow> p'\<lparr>p_suspended := (p_suspended p')[i := k]\<rparr>)
          else p)"

text \<open>How often the shutdown sequence was entered: once for each of its opening log lines.\<close>

definition entries :: "proc \<Rightarrow> nat" where
  "entries p = length (filter (\<lambda>e. msg e = ''Shutting down HTTP server...'') (st_log p))"

text \<open>
  The registry is consistent with the transports when its keys are distinct and every
  entry's key is the \<^verbatim>\<open>sessionId\<close> field of its transport, as the SDK's initialization
  leaves them.
\<close>

definition consistent :: "'a server_scheme \<Rightarrow> bool" where
  "consistent p =
     (distinct (map fst (st_transports p))
      \<and> list_all (\<lambda>(k, t). st_sessionId p t = Some k) (st_transports p))"

text \<open>The second half of it as a property of lookups, for the proofs.\<close>

definition cons :: "'a server_scheme \<Rightarrow> bool" where
  "cons p = (\<forall>k t. map_of (st_transports p) k = Some t \<longrightarrow> st_sessionId p t = Some k)"

definition serving :: "registry \<Rightarrow> proc" where
  "serving r = \<lparr>st_transports = r, st_sessionId = (\<lambda>t. map_of (map (\<lambda>(k, t). (t, k)) r) t),
     st_log = [], p_calls = [], p_exit = None, p_suspended = []\<rparr>"

definition failing_close :: "tid list \<Rightarrow> shutdown_env" where
  "failing_close bad =
     \<lparr>transport_close = (\<lambda>t. \<lparr>fires_onclose = True,
          rejects = (if t \<in> set bad then Some ''close failed'' else None)\<rparr>),
      server_close = None\<rparr>"

subsection \<open>The stdio entry point\<close>

text \<open>
  \<^verbatim>\<open>async function handleShutdown(mcpServer, signal) {
    logger.info(`Received ${signal}, shutting down...`);
    try { await mcpServer.close(); logger.info('Server closed successfully'); }
    catch (error) { logger.error('Error during shutdown', ...); }
    process.exit(0); }\<close>

  The process has no sessions: its state is the log, the calls made, the exit status and
  the number of activations waiting for \<^verbatim>\<open>mcpServer.close()\<close>.
\<close>

record stdio_proc =
  sp_log :: "log_entry list"
  sp_calls :: "call list"
  sp_exit :: "int option"
  sp_suspended :: nat

definition stdio_handleShutdown_enter :: "string \<Rightarrow> stdio_proc \<Rightarrow> stdio_proc" where
  "stdio_handleShutdown_enter signal p =
     p\<lparr>sp_log := sp_log p @ [logged INFO (''Received '' @ signal @ '', shutting down...'') None],
       sp_calls := sp_calls p @ [CloseServer],
       sp_suspended := Suc (sp_suspended p)\<rparr>"

definition stdio_handleShutdown_resume :: "string option \<Rightarrow> stdio_proc \<Rightarrow> stdio_proc" where
  "stdio_handleShutdown_resume outcome p =
     p\<lparr>sp_log := sp_log p @
         [case outcome of
            None \<Rightarrow> logged INFO ''Server closed successfully'' None
          | Some m \<Rightarrow> logged ERROR ''Error during shutdown'' None],
       sp_exit := Some 0,
       sp_suspended := sp_suspended p - 1\<rparr>"

text \<open>
  \<^verbatim>\<open>process.on('SIGINT', () => handleShutdown(mcpServer, 'SIGINT'));
  process.on('SIGTERM', () => handleShutdown(mcpServer, 'SIGTERM'));
  process.on('uncaughtException', (error) => {
    logger.error('Uncaught exception', ...); handleShutdown(mcpServer, 'uncaughtException'); });
  process.on('unhandledRejection', (reason) => {
    logger.error('Unhandled rejection', { reason });
    handleShutdown(mcpServer, 'unhandledRejection'); });\<close>
\<close>

fun stdio_on :: "signal \<Rightarrow> stdio_proc \<Rightarrow> stdio_proc" where
  "stdio_on SIGINT p = stdio_handleShutdown_enter ''SIGINT'' p"
| "stdio_on SIGTERM p = stdio_handleShutdown_enter ''SIGTERM'' p"
| "stdio_on (UncaughtException m) p =
     stdio_handleShutdown_enter ''uncaughtException''
       (p\<lparr>sp_log := sp_log p @ [logged ERROR ''Uncaught exception'' None]\<rparr>)"
| "stdio_on (UnhandledRejection m) p =
     stdio_handleShutdown_enter ''unhandledRejection''
       (p\<lparr>sp_log := sp_log p @ [logged ERROR ''Unhandled rejection'' None]\<rparr>)"

subsection \<open>Errors and the tool boundary\<close>

text \<open>Decimal digits of a number, as a template literal prints an integer.\<close>

fun show_nat :: "nat \<Rightarrow> string" where
  "show_nat n =
     (if n < 10 then [''0123456789'' ! n]
      else show_nat (n div 10) @ [''0123456789'' ! (n mod 10)])"

declare show_nat.simps [simp del]

text \<open>
  A status is the \<^verbatim>\<open>statusCode\<close> of an \<^verbatim>\<open>ExternalApiError\<close> or the \<^verbatim>\<open>code\<close> of an
  SDK error: a number or a string. Zero and the empty string are falsy.
\<close>

datatype status = StatusNum nat | StatusStr string

fun show_status :: "status \<Rightarrow> string" where
  "show_status (StatusNum n) = show_nat n"
| "show_status (StatusStr s) = s"

fun truthy_status :: "status option \<Rightarrow> bool" where
  "truthy_status None = False"
| "truthy_status (Some (StatusNum n)) = (n \<noteq> 0)"
| "truthy_status (Some (StatusStr s)) = (s \<noteq> [])"

text \<open>
  The values a \<^verbatim>\<open>catch\<close> can receive: \<^verbatim>\<open>null\<close>, \<^verbatim>\<open>undefined\<close>, an
  \<^verbatim>\<open>ExternalApiError\<close> (message, \<^verbatim>\<open>statusCode\<close>, \<^verbatim>\<open>apiResponse\<close>), another
  \<^verbatim>\<open>Error\<close> (message), or a value that is no \<^verbatim>\<open>Error\<close> (given by its \<^verbatim>\<open>String(...)\<close>).
\<close>

datatype thrown_value =
    ThrownNull
  | ThrownUndefined
  | ExternalApiErrorObj string "status option" "string option"
  | ErrorObj string
  | NonError string

text \<open>
  \<^verbatim>\<open>constructor(message, statusCode, apiResponse) {
    super(`External API error: ${message}`); ... }\<close>
\<close>

definition ExternalApiError :: "string \<Rightarrow> status option \<Rightarrow> string option \<Rightarrow> thrown_value" where
  "ExternalApiError message statusCode apiResponse =
     ExternalApiErrorObj (''External API error: '' @ message) statusCode apiResponse"

text \<open>
  \<^verbatim>\<open>export function formatErrorForUser(error) {
    if (error instanceof ExternalApiError) {
      return `API request failed${error.statusCode ? ` (status ${error.statusCode})` : ''}: ${error.message}`;
    } else if (error instanceof Error) { return error.message; }
    else { return String(error); } }\<close>
\<close>

fun formatErrorForUser :: "thrown_value \<Rightarrow> string" where
  "formatErrorForUser (ExternalApiErrorObj message statusCode apiResponse) =
     ''API request failed'' @
     (if truthy_status statusCode then '' (status '' @ show_status (the statusCode) @ '')'' else [])
     @ '': '' @ message"
| "formatErrorForUser (ErrorObj message) = message"
| "formatErrorForUser (NonError s) = s"
| "formatErrorForUser ThrownNull = ''null''"
| "formatErrorForUser ThrownUndefined = ''undefined''"

text \<open>
  What \<^verbatim>\<open>ai.models.generateContent(requestOptions)\<close> can do: throw a value, of which
  the client reads \<^verbatim>\<open>code\<close>, \<^verbatim>\<open>message\<close>, \<^verbatim>\<open>details\<close> and \<^verbatim>\<open>stack\<close> (\<open>None\<close>:
  \<^verbatim>\<open>undefined\<close>), or return a response, of which it reads \<^verbatim>\<open>text\<close>, the first
  candidate's \<^verbatim>\<open>finishReason\<close> (\<open>r_candidate = None\<close>: no candidate) and, for a
  diagnostic, its JSON text.
\<close>

record sdk_failure =
  f_code :: "status option"
  f_message :: "string option"
  f_details :: "string option"
  f_stack :: "string option"

record sdk_response =
  r_text :: "string option"
  r_candidate :: "string option option"
  r_json :: string

datatype sdk_outcome = ThrowsNullish | Throws sdk_failure | Returns sdk_response

record api_config =
  geminiApiKey :: string
  requestTimeoutMs :: nat

record api_result =
  res_text :: string
  res_finishReason :: "string option"

text \<open>A \<^verbatim>\<open>string | undefined\<close> inside a template literal.\<close>

fun interpolate :: "string option \<Rightarrow> string" where
  "interpolate None = ''undefined''"
| "interpolate (Some s) = s"

text \<open>
  The \<^verbatim>\<open>catch\<close> block of \<^verbatim>\<open>callGeminiApi\<close> for a value the SDK threw (it is no
  \<^verbatim>\<open>ExternalApiError\<close>, so it is not re-thrown as it is). The argument of its
  \<^verbatim>\<open>logger.error\<close> call reads \<^verbatim>\<open>error.message\<close>, which is a TypeError when the value
  is \<^verbatim>\<open>null\<close> or \<^verbatim>\<open>undefined\<close>. The result is the value the block throws.
\<close>

definition api_catch :: "api_config \<Rightarrow> sdk_failure \<Rightarrow> thrown_value" where
  "api_catch config error =
     (if f_code error = Some (StatusStr ''DEADLINE_EXCEEDED'') then
        ExternalApiError (''Request timed out after '' @ show_nat (requestTimeoutMs config) @ ''ms'')
          (Some (StatusNum 408)) (Some ''Request took too long to complete'')
      else if f_code error = Some (StatusStr ''RESOURCE_EXHAUSTED'') then
        ExternalApiError ''Rate limit exceeded for Gemini API''
          (Some (StatusNum 429)) (Some ''Too many requests'')
      else if truthy_str (f_details error) then
        ExternalApiError (''Gemini API error: '' @ interpolate (f_message error))
          (if truthy_status (f_code error) then f_code error else Some (StatusNum 500))
          (f_details error)
      else
        ExternalApiError
          (if truthy_str (f_message error) then the (f_message error)
           else ''Unknown error occurred calling Gemini API'')
          (Some (StatusNum 500)) (f_stack error))"

text \<open>
  \<^verbatim>\<open>callGeminiApi(params)\<close>, as far as its result depends on the SDK: \<open>Inl\<close> is the
  value the returned promise rejects with.
\<close>

definition callGeminiApi :: "api_config \<Rightarrow> sdk_outcome \<Rightarrow> thrown_value + api_result" where
  "callGeminiApi config outcome =
     (if \<not> truthy_str (Some (geminiApiKey config)) then
        Inl (ExternalApiError ''Gemini API key not found in configuration''
               (Some (StatusNum 401)) (Some ''Missing API key''))
      else case outcome of
        ThrowsNullish \<Rightarrow> Inl (ErrorObj ''Cannot read properties of null'')
      | Throws error \<Rightarrow> Inl (api_catch config error)
      | Returns response \<Rightarrow>
          (case r_candidate response of
             None \<Rightarrow> Inl (ExternalApiError ''No candidates found in Gemini response''
                           (Some (StatusNum 200)) (Some ''Empty candidates array''))
           | Some reason \<Rightarrow>
               if truthy_str (r_text response) then
                 Inr \<lparr>res_text = the (r_text response), res_finishReason = reason\<rparr>
               else Inl (ExternalApiError ''Could not parse Gemini response - missing text content''
                           (Some (StatusNum 200)) (Some (take 200 (r_json response))))))"

text \<open>
  The result of a tool call, \<^verbatim>\<open>CallToolResult\<close>: content items, and \<^verbatim>\<open>isError\<close> when
  it is set.
\<close>

datatype content_item = TextItem string

record call_tool_result =
  content :: "content_item list"
  isError :: "bool option"

text \<open>
  The \<^verbatim>\<open>catch\<close> block of the tool: the argument of its \<^verbatim>\<open>logger.error\<close> call reads
  \<^verbatim>\<open>(error as Error).message\<close>, a TypeError when the value caught is \<^verbatim>\<open>null\<close> or
  \<^verbatim>\<open>undefined\<close>, which would leave the tool (\<open>Inl\<close>); otherwise it returns
  \<^verbatim>\<open>{ content: [{ type: "text",
       text: `Error interacting with Gemini API: ${formatErrorForUser(error)}` }],
     isError: true }\<close>.
\<close>

fun tool_catch :: "thrown_value \<Rightarrow> thrown_value + call_tool_result" where
  "tool_catch ThrownNull = Inl (ErrorObj ''Cannot read properties of null'')"
| "tool_catch ThrownUndefined =
     Inl (ErrorObj ''Cannot read properties of undefined'')"
| "tool_catch error =
     Inr \<lparr>content = [TextItem (''Error interacting with Gemini API: '' @ formatErrorForUser error)],
          isError = Some True\<rparr>"

text \<open>
  The tool implementation registered as \<^verbatim>\<open>callGemini\<close>:
  \<^verbatim>\<open>try { const response = await callGeminiApi({...});
        return { content: [{ type: "text", text: response.text }] };
  } catch (error) { ... }\<close>
\<close>

definition callGemini :: "api_config \<Rightarrow> sdk_outcome \<Rightarrow> thrown_value + call_tool_result" where
  "callGemini config outcome =
     (case callGeminiApi config outcome of
        Inr response \<Rightarrow> Inr \<lparr>content = [TextItem (res_text response)], isError = None\<rparr>
      | Inl error \<Rightarrow> tool_catch error)"

definition default_config :: api_config where
  "default_config = \<lparr>geminiApiKey = ''k'', requestTimeoutMs = 30000\<rparr>"

definition deadline_exceeded :: sdk_outcome where
  "deadline_exceeded =
     Throws \<lparr>f_code = Some (StatusStr ''DEADLINE_EXCEEDED''), f_message = Some ''Deadline exceeded'',
             f_details = None, f_stack = None\<rparr>"

subsection \<open>Tool parameter validation\<close>

text \<open>
  The arguments of a tool call are a JSON object. A JSON number is a real number (NaN
  cannot be written in JSON, and a literal too large for a double is left out of the
  model); \<open>JOther\<close> stands for arrays and objects.
\<close>

datatype jval = JNull | JBool bool | JNum real | JStr string | JOther

text \<open>
  A zod type: the check of the value's type, and the refinements added by \<^verbatim>\<open>.min\<close>,
  \<^verbatim>\<open>.max\<close>, \<^verbatim>\<open>.int\<close> and \<^verbatim>\<open>.positive\<close>, each with its message. Parsing yields the
  value or the list of issues: a value of the wrong type is one issue, and a value of the
  right type has one issue for each refinement it fails. \<open>None\<close> is \<^verbatim>\<open>undefined\<close>, a key
  that is absent.
\<close>

record 'a ztype =
  z_base :: "jval option \<Rightarrow> string list + 'a"
  z_checks :: "(('a \<Rightarrow> bool) \<times> string) list"

definition zparse :: "'a ztype \<Rightarrow> jval option \<Rightarrow> string list + 'a" where
  "zparse t v =
     (case z_base t v of
        Inl issues \<Rightarrow> Inl issues
      | Inr x \<Rightarrow>
          (case map snd (filter (\<lambda>(ok, m). \<not> ok x) (z_checks t)) of
             [] \<Rightarrow> Inr x
           | issues \<Rightarrow> Inl issues))"

definition z_string :: "string ztype" where
  "z_string =
     \<lparr>z_base = (\<lambda>v. case v of None \<Rightarrow> Inl [''Required'']
                      | Some (JStr s) \<Rightarrow> Inr s
                      | Some other \<Rightarrow> Inl [''Expected string'']),
      z_checks = []\<rparr>"

definition z_number :: "real ztype" where
  "z_number =
     \<lparr>z_base = (\<lambda>v. case v of None \<Rightarrow> Inl [''Required'']
                      | Some (JNum x) \<Rightarrow> Inr x
                      | Some other \<Rightarrow> Inl [''Expected number'']),
      z_checks = []\<rparr>"

definition z_boolean :: "bool ztype" where
  "z_boolean =
     \<lparr>z_base = (\<lambda>v. case v of None \<Rightarrow> Inl [''Required'']
                      | Some (JBool b) \<Rightarrow> Inr b
                      | Some other \<Rightarrow> Inl [''Expected boolean'']),
      z_checks = []\<rparr>"

definition refine :: "('a \<Rightarrow> bool) \<Rightarrow> string \<Rightarrow> 'a ztype \<Rightarrow> 'a ztype" where
  "refine ok m t = t\<lparr>z_checks := z_checks t @ [(ok, m)]\<rparr>"

definition str_min :: "nat \<Rightarrow> string \<Rightarrow> string ztype \<Rightarrow> string ztype" where
  "str_min n = refine (\<lambda>s. n \<le> length s)"

definition num_min :: "real \<Rightarrow> string \<Rightarrow> real ztype \<Rightarrow> real ztype" where
  "num_min c = refine (\<lambda>x. c \<le> x)"

definition num_max :: "real \<Rightarrow> string \<Rightarrow> real ztype \<Rightarrow> real ztype" where
  "num_max c = refine (\<lambda>x. x \<le> c)"

definition num_int :: "string \<Rightarrow> real ztype \<Rightarrow> real ztype" where
  "num_int = refine (\<lambda>x. of_int \<lfloor>x\<rfloor> = x)"

definition num_positive :: "string \<Rightarrow> real ztype \<Rightarrow> real ztype" where
  "num_positive = refine (\<lambda>x. 0 < x)"

text \<open>\<^verbatim>\<open>.optional()\<close> accepts \<^verbatim>\<open>undefined\<close>; \<^verbatim>\<open>.default(d)\<close> parses \<open>d\<close> in its place.\<close>

definition optional :: "'a ztype \<Rightarrow> jval option \<Rightarrow> string list + 'a option" where
  "optional t v =
     (case v of
        None \<Rightarrow> Inr None
      | Some x \<Rightarrow> (case zparse t v of Inl issues \<Rightarrow> Inl issues | Inr y \<Rightarrow> Inr (Some y)))"

definition zdefault ::
  "jval \<Rightarrow> (jval option \<Rightarrow> string list + 'b) \<Rightarrow> jval option \<Rightarrow> string list + 'b" where
  "zdefault d inner v = inner (case v of None \<Rightarrow> Some d | Some x \<Rightarrow> Some x)"

text \<open>The arguments as received, and as the tool implementation gets them.\<close>

record raw_args =
  arg_model :: "jval option"
  arg_prompt :: "jval option"
  arg_temperature :: "jval option"
  arg_maxOutputTokens :: "jval option"
  arg_topK :: "jval option"
  arg_topP :: "jval option"
  arg_enableGrounding :: "jval option"

record GeminiToolInput =
  model :: string
  prompt :: string
  temperature :: "real option"
  maxOutputTokens :: "real option"
  topK :: "real option"
  topP :: "real option"
  enableGrounding :: "bool option"

text \<open>
  \<^verbatim>\<open>export const geminiToolSchema = {
    model: z.string().default("gemini-1.5-flash-latest"),
    prompt: z.string().min(1, "Prompt cannot be empty"),
    temperature: z.number().min(0, ...).max(1, ...).optional().default(0.7),
    maxOutputTokens: z.number().int(...).positive(...).max(8192, ...).optional().default(2048),
    topK: z.number().int(...).positive(...).optional(),
    topP: z.number().min(0, ...).max(1, ...).optional(),
    enableGrounding: z.boolean().optional().default(true) };\<close>
\<close>

definition schema_model :: "jval option \<Rightarrow> string list + string" where
  "schema_model = zdefault (JStr ''gemini-1.5-flash-latest'') (zparse z_string)"

definition schema_prompt :: "jval option \<Rightarrow> string list + string" where
  "schema_prompt = zparse (str_min 1 ''Prompt cannot be empty'' z_string)"

definition schema_temperature :: "jval option \<Rightarrow> string list + real option" where
  "schema_temperature =
     zdefault (JNum 0.7)
       (optional (num_max 1 ''Temperature must be at most 1''
                   (num_min 0 ''Temperature must be at least 0'' z_number)))"

definition schema_maxOutputTokens :: "jval option \<Rightarrow> string list + real option" where
  "schema_maxOutputTokens =
     zdefault (JNum 2048)
       (optional (num_max 8192 ''Cannot exceed 8192 tokens''
                   (num_positive ''Must be positive''
                     (num_int ''Must be an integer'' z_number))))"

definition schema_topK :: "jval option \<Rightarrow> string list + real option" where
  "schema_topK =
     optional (num_positive ''Must be positive'' (num_int ''Must be an integer'' z_number))"

definition schema_topP :: "jval option \<Rightarrow> string list + real option" where
  "schema_topP =
     optional (num_max 1 ''Must be at most 1'' (num_min 0 ''Must be at least 0'' z_number))"

definition schema_enableGrounding :: "jval option \<Rightarrow> string list + bool option" where
  "schema_enableGrounding = zdefault (JBool True) (optional z_boolean)"

fun issues_of :: "string list + 'a \<Rightarrow> string list" where
  "issues_of (Inl issues) = issues"
| "issues_of (Inr x) = []"

text \<open>
  \<^verbatim>\<open>z.object(geminiToolSchema)\<close>: every key is parsed, and the object is accepted when no
  key has an issue.
\<close>

definition geminiToolInputSchema :: "raw_args \<Rightarrow> string list + GeminiToolInput" where
  "geminiToolInputSchema a =
     (let m = schema_model (arg_model a);
          p = schema_prompt (arg_prompt a);
          t = schema_temperature (arg_temperature a);
          mx = schema_maxOutputTokens (arg_maxOutputTokens a);
          k = schema_topK (arg_topK a);
          tp = schema_topP (arg_topP a);
          g = schema_enableGrounding (arg_enableGrounding a);
          issues = issues_of m @ issues_of p @ issues_of t @ issues_of mx @ issues_of k
                   @ issues_of tp @ issues_of g
      in case (m, p, t, mx, k, tp, g) of
           (Inr m', Inr p', Inr t', Inr mx', Inr k', Inr tp', Inr g') \<Rightarrow>
             Inr \<lparr>model = m', prompt = p', temperature = t', maxOutputTokens = mx',
                  topK = k', topP = tp', enableGrounding = g'\<rparr>
         | other \<Rightarrow> Inl issues)"

text \<open>
  The SDK's handling of a call of the tool: the arguments are parsed with the schema, and
  the tool implementation is called with the parsed value only when parsing succeeds.
\<close>

datatype 'r tool_call = InvalidParams "string list" | Invoked 'r

definition call_tool :: "(GeminiToolInput \<Rightarrow> 'r) \<Rightarrow> raw_args \<Rightarrow> 'r tool_call" where
  "call_tool callback args =
     (case geminiToolInputSchema args of
        Inl issues \<Rightarrow> InvalidParams issues
      | Inr input \<Rightarrow> Invoked (callback input))"

definition only_prompt :: "string \<Rightarrow> raw_args" where
  "only_prompt s = \<lparr>arg_model = None, arg_prompt = Some (JStr s), arg_temperature = None,
     arg_maxOutputTokens = None, arg_topK = None, arg_topP = None, arg_enableGrounding = None\<rparr>"

definition hot_args :: raw_args where
  "hot_args = (only_prompt ''x'')\<lparr>arg_temperature := Some (JNum 1.5)\<rparr>"

definition long_args :: raw_args where
  "long_args = (only_prompt ''x'')\<lparr>arg_maxOutputTokens := Some (JNum 9000)\<rparr>"

subsection \<open>The logger's redaction of metadata\<close>

text \<open>
  Metadata is an object: its keys in order, each with a JSON-like value. Keys are ASCII
  strings here, and \<^verbatim>\<open>toLowerCase\<close> maps the letters A to Z.
\<close>

datatype meta_value =
    MNull | MBool bool | MNum int | MStr string
  | MArr "meta_value list"
  | MObj "(string \<times> meta_value) list"

type_synonym metadata = "(string \<times> meta_value) list"

definition upper_letters :: string where
  "upper_letters = ''ABCDEFGHIJKLMNOPQRSTUVWXYZ''"

definition lower_letters :: string where
  "lower_letters = ''abcdefghijklmnopqrstuvwxyz''"

definition lower_char :: "char \<Rightarrow> char" where
  "lower_char c =
     (case map_of (zip upper_letters lower_letters) c of
        Some l \<Rightarrow> l
      | None \<Rightarrow> c)"

definition toLowerCase :: "string \<Rightarrow> string" where
  "toLowerCase s = map lower_char s"

text \<open>\<^verbatim>\<open>s.includes(sub)\<close>: \<open>sub\<close> occurs in \<open>s\<close> as a contiguous substring.\<close>

fun startsWith :: "string \<Rightarrow> string \<Rightarrow> bool" where
  "startsWith s [] = True"
| "startsWith [] (d # sub) = False"
| "startsWith (c # s) (d # sub) = (c = d \<and> startsWith s sub)"

fun str_includes :: "string \<Rightarrow> string \<Rightarrow> bool" where
  "str_includes [] sub = (sub = [])"
| "str_includes (c # s) sub = (startsWith (c # s) sub \<or> str_includes s sub)"

text \<open>
  \<^verbatim>\<open>function sanitizeMetadata(meta) {
    if (!meta) return {};
    const sanitized = { ...meta };
    const sensitiveKeys = ['api_key', 'apiKey', 'key', 'password', 'secret', 'token'];
    for (const key of Object.keys(sanitized)) {
      if (sensitiveKeys.some(sensitive => key.toLowerCase().includes(sensitive))) {
        sanitized[key] = '[REDACTED]'; } }
    return sanitized; }\<close>
\<close>

definition sensitiveKeys :: "string list" where
  "sensitiveKeys = [''api_key'', ''apiKey'', ''key'', ''password'', ''secret'', ''token'']"

definition is_sensitive :: "string \<Rightarrow> bool" where
  "is_sensitive key = list_ex (\<lambda>sensitive. str_includes (toLowerCase key) sensitive) sensitiveKeys"

definition redact_key :: "metadata \<Rightarrow> string \<Rightarrow> metadata" where
  "redact_key sanitized key =
     (if is_sensitive key then AList.update key (MStr ''[REDACTED]'') sanitized else sanitized)"

definition sanitizeMetadata :: "metadata option \<Rightarrow> metadata" where
  "sanitizeMetadata meta =
     (case meta of
        None \<Rightarrow> []
      | Some m \<Rightarrow> foldl redact_key m (map fst m))"

text \<open>
  The claim's words: the lowercased key contains one of the substrings \<^verbatim>\<open>api_key\<close>,
  \<^verbatim>\<open>apikey\<close>, \<^verbatim>\<open>key\<close>, \<^verbatim>\<open>password\<close>, \<^verbatim>\<open>secret\<close>, \<^verbatim>\<open>token\<close>; and the redaction of
  the top-level entries with such keys only.
\<close>

definition named_sensitive :: "string \<Rightarrow> bool" where
  "named_sensitive key =
     list_ex (\<lambda>sub. str_includes (toLowerCase key) sub)
       [''api_key'', ''apikey'', ''key'', ''password'', ''secret'', ''token'']"

definition redact_top_level :: "metadata \<Rightarrow> metadata" where
  "redact_top_level m =
     map (\<lambda>(key, v). (key, if named_sensitive key then MStr ''[REDACTED]'' else v)) m"

definition sample_meta :: metadata where
  "sample_meta =
     [(''user'', MObj [(''password'', MStr ''hunter2''), (''token'', MStr ''t'')]),
      (''apiKey'', MStr ''abc''),
      (''sessionId'', MStr ''s1''),
      (''AUTH_TOKEN'', MNum 7)]"

section \<open>Properties\<close>

subsection \<open>Removal is idempotent\<close>

lemma getProp_delete_same:
  "getProp (AList.delete s transports) s =
     (if s \<in> set objectPrototypeKeys then InheritedMember s else Undefined)"
  by (simp add: getProp_def AList.delete_conv')

lemma delete_absent: "map_of transports s = None \<Longrightarrow> AList.delete s transports = transports"
  by (simp add: map_of_eq_None_iff)

lemma fst_onclose_twice:
  "fst (onclose sessionId (fst (onclose sessionId transports))) = fst (onclose sessionId transports)"
  by (cases sessionId) (simp_all add: onclose_def AList.delete_idem)

lemma onclose_absent:
  "map_of transports s = None \<Longrightarrow> fst (onclose (Some s) transports) = transports"
  by (simp add: onclose_def delete_absent)

text \<open>
  C8. The close handler is idempotent on the registry: running it a second time leaves
  the registry as the first run left it, and running it for a session id that has no
  entry leaves the registry as it was and is not an error (the handler has no failing
  branch: it returns a registry for every input).
\<close>

theorem C8_remove_idempotent:
  "fst (onclose sessionId (fst (onclose sessionId transports))) = fst (onclose sessionId transports)
   \<and> (map_of transports s = None \<longrightarrow> fst (onclose (Some s) transports) = transports)"
  using fst_onclose_twice onclose_absent by blast

theorem C8_remove_idempotent_witness:
  "fst (onclose (Some ''s1'') (fst (onclose (Some ''s1'') [(''s1'', 1), (''s2'', 2)])))
     = [(''s2'', 2)]
   \<and> fst (onclose (Some ''s1'') [(''s1'', 1), (''s2'', 2)]) = [(''s2'', 2)]
   \<and> map_of [(''s2'', 2::nat)] ''s1'' = None
   \<and> fst (onclose (Some ''s1'') [(''s2'', 2)]) = [(''s2'', 2)]"
  using C8_remove_idempotent [of "Some ''s1''" "[(''s1'', 1), (''s2'', 2)]" "''s1''"]
    C8_remove_idempotent [of "Some ''s1''" "[(''s2'', 2)]" "''s1''"]
  by (simp add: onclose_def getProp_def objectPrototypeKeys_def)

subsection \<open>Router classification\<close>

lemma handler_continue:
  "req_sessionId req = Some s \<Longrightarrow> s \<noteq> [] \<Longrightarrow> map_of transports s = Some t \<Longrightarrow>
   mcp_handler sdk transports fresh req = delegate sdk (Some s) t req"
  by (simp add: mcp_handler_def try_body_def and_lookup_def getProp_def delegate_def
      split: option.splits)

lemma handler_begin:
  "\<not> truthy_str (req_sessionId req) \<Longrightarrow> req_method req = ''POST'' \<Longrightarrow>
   isInitializeRequest sdk (req_body req) \<Longrightarrow>
   mcp_handler sdk transports fresh req =
     NewTransport fresh # Connect fresh #
     (case connect sdk fresh of
        Some e \<Rightarrow> catch_block (req_sessionId req) False
      | None \<Rightarrow> delegate sdk (req_sessionId req) fresh req)"
  by (cases "req_sessionId req")
     (simp_all add: mcp_handler_def try_body_def and_lookup_def delegate_def
      split: option.splits)

lemma handler_reject:
  "and_lookup (req_sessionId req) transports = Undefined \<Longrightarrow>
   \<not> (\<not> truthy_str (req_sessionId req) \<and> req_method req = ''POST''
       \<and> isInitializeRequest sdk (req_body req)) \<Longrightarrow>
   mcp_handler sdk transports fresh req = reject (req_sessionId req)"
  by (auto simp: mcp_handler_def try_body_def reject_def Let_def)

lemma unknown_id_lookup:
  "s \<noteq> [] \<Longrightarrow> map_of transports s = None \<Longrightarrow> s \<notin> set objectPrototypeKeys \<Longrightarrow>
   and_lookup (Some s) transports = Undefined"
  by (simp add: and_lookup_def getProp_def)

text \<open>
  C1 (as amended). Every request is given exactly one of three outcomes. (1) A session-id
  header whose value is non-empty and is an own key of the registry: the request is
  delegated to that session's transport, and no transport is created. (2) No session-id
  header, or one whose value is the empty string, with method POST and an initialization
  body: a new transport is created and connected, and the request is delegated to it
  (when \<^verbatim>\<open>connect\<close> rejects, the \<^verbatim>\<open>catch\<close> block answers instead). (3) No header or an
  empty one, and not an initializing POST: the answer is 400 with
  \<^verbatim>\<open>{"error":"Invalid MCP request"}\<close> and no transport receives the request. In particular a
  non-empty session id that is not a key of the registry and does not name a member of
  \<^verbatim>\<open>Object.prototype\<close> is rejected with that answer, whatever the method and the body.
\<close>

theorem C1_router_classification:
  "(req_sessionId req = Some s \<and> s \<noteq> [] \<and> map_of transports s = Some t \<longrightarrow>
      mcp_handler sdk transports fresh req = delegate sdk (Some s) t req)
   \<and> (\<not> truthy_str (req_sessionId req) \<and> req_method req = ''POST''
        \<and> isInitializeRequest sdk (req_body req) \<longrightarrow>
      mcp_handler sdk transports fresh req =
        NewTransport fresh # Connect fresh #
        (case connect sdk fresh of
           Some e \<Rightarrow> catch_block (req_sessionId req) False
         | None \<Rightarrow> delegate sdk (req_sessionId req) fresh req))
   \<and> (\<not> truthy_str (req_sessionId req)
        \<and> \<not> (req_method req = ''POST'' \<and> isInitializeRequest sdk (req_body req)) \<longrightarrow>
      mcp_handler sdk transports fresh req = reject (req_sessionId req))
   \<and> (req_sessionId req = Some s \<and> s \<noteq> [] \<and> map_of transports s = None
        \<and> s \<notin> set objectPrototypeKeys \<longrightarrow>
      mcp_handler sdk transports fresh req = reject (Some s))"
proof (intro conjI impI)
  assume "req_sessionId req = Some s \<and> s \<noteq> [] \<and> map_of transports s = Some t"
  then show "mcp_handler sdk transports fresh req = delegate sdk (Some s) t req"
    by (simp add: handler_continue)
next
  assume "\<not> truthy_str (req_sessionId req) \<and> req_method req = ''POST''
        \<and> isInitializeRequest sdk (req_body req)"
  then show "mcp_handler sdk transports fresh req =
        NewTransport fresh # Connect fresh #
        (case connect sdk fresh of
           Some e \<Rightarrow> catch_block (req_sessionId req) False
         | None \<Rightarrow> delegate sdk (req_sessionId req) fresh req)"
    by (simp add: handler_begin)
next
  assume a: "\<not> truthy_str (req_sessionId req)
        \<and> \<not> (req_method req = ''POST'' \<and> isInitializeRequest sdk (req_body req))"
  then have "and_lookup (req_sessionId req) transports = Undefined"
    by (cases "req_sessionId req") (simp_all add: and_lookup_def)
  with a show "mcp_handler sdk transports fresh req = reject (req_sessionId req)"
    by (simp add: handler_reject)
next
  assume a: "req_sessionId req = Some s \<and> s \<noteq> [] \<and> map_of transports s = None
        \<and> s \<notin> set objectPrototypeKeys"
  then have "and_lookup (req_sessionId req) transports = Undefined"
    by (simp add: unknown_id_lookup)
  moreover from a have "truthy_str (req_sessionId req)" by simp
  ultimately have "mcp_handler sdk transports fresh req = reject (req_sessionId req)"
    by (simp add: handler_reject)
  with a show "mcp_handler sdk transports fresh req = reject (Some s)" by simp
qed

theorem C1_router_classification_witness:
  "mcp_handler quiet_sdk [(''abc'', 4)] 0 (init_post (Some ''abc'')) = [HandleRequest 4 (init_post (Some ''abc''))]
   \<and> mcp_handler quiet_sdk [(''abc'', 4)] 0 (init_post None)
       = [NewTransport 0, Connect 0, HandleRequest 0 (init_post None)]
   \<and> mcp_handler quiet_sdk [(''abc'', 4)] 0
        \<lparr>req_sessionId = None, req_method = ''GET'', req_body = True\<rparr>
       = reject None
   \<and> mcp_handler quiet_sdk [(''abc'', 4)] 0 (init_post (Some ''xyz'')) = reject (Some ''xyz'')"
proof -
  have a: "req_sessionId (init_post (Some ''abc'')) = Some ''abc'' \<and> ''abc'' \<noteq> []
       \<and> map_of [(''abc'', 4::nat)] ''abc'' = Some 4"
    by (simp add: init_post_def)
  have b: "\<not> truthy_str (req_sessionId (init_post None)) \<and> req_method (init_post None) = ''POST''
       \<and> isInitializeRequest quiet_sdk (req_body (init_post None))"
    by (simp add: init_post_def quiet_sdk_def)
  have c: "\<not> truthy_str (req_sessionId \<lparr>req_sessionId = None, req_method = ''GET'', req_body = True\<rparr>)
       \<and> \<not> (req_method \<lparr>req_sessionId = None, req_method = ''GET'', req_body = True\<rparr> = ''POST''
            \<and> isInitializeRequest quiet_sdk
                 (req_body \<lparr>req_sessionId = None, req_method = ''GET'', req_body = True\<rparr>))"
    by simp
  have d: "req_sessionId (init_post (Some ''xyz'')) = Some ''xyz'' \<and> ''xyz'' \<noteq> []
       \<and> map_of [(''abc'', 4::nat)] ''xyz'' = None \<and> ''xyz'' \<notin> set objectPrototypeKeys"
    by (simp add: init_post_def objectPrototypeKeys_def)
  have q: "delegate quiet_sdk h t r = [HandleRequest t r]" for h t r
    by (simp add: delegate_def quiet_sdk_def)
  have k: "connect quiet_sdk 0 = None" by (simp add: quiet_sdk_def)
  from C1_router_classification
         [of "init_post (Some ''abc'')" "''abc''" "[(''abc'', 4)]" 4 quiet_sdk 0] a
  have 1: "mcp_handler quiet_sdk [(''abc'', 4)] 0 (init_post (Some ''abc'')) = [HandleRequest 4 (init_post (Some ''abc''))]"
    by (simp add: q)
  from C1_router_classification
         [of "init_post None" "''abc''" "[(''abc'', 4)]" 4 quiet_sdk 0] b
  have 2: "mcp_handler quiet_sdk [(''abc'', 4)] 0 (init_post None)
       = [NewTransport 0, Connect 0, HandleRequest 0 (init_post None)]"
    by (simp add: q k)
  from C1_router_classification
         [of "\<lparr>req_sessionId = None, req_method = ''GET'', req_body = True\<rparr>" "''abc''"
             "[(''abc'', 4)]" 4 quiet_sdk 0] c
  have 3: "mcp_handler quiet_sdk [(''abc'', 4)] 0
        \<lparr>req_sessionId = None, req_method = ''GET'', req_body = True\<rparr> = reject None"
    by simp
  from C1_router_classification
         [of "init_post (Some ''xyz'')" "''xyz''" "[(''abc'', 4)]" 4 quiet_sdk 0] d
  have 4: "mcp_handler quiet_sdk [(''abc'', 4)] 0 (init_post (Some ''xyz'')) = reject (Some ''xyz'')"
    by simp
  from 1 2 3 4 show ?thesis by simp
qed

text \<open>
  The claim as first stated fails: a POST with an initialization body and a session-id
  header of empty value carries a session id that is not in the registry, yet a new
  session is begun.
\<close>

theorem C1_empty_header_counterexample:
  "mcp_handler quiet_sdk [] 0 (init_post (Some []))
     = [NewTransport 0, Connect 0, HandleRequest 0 (init_post (Some []))]
   \<and> mcp_handler quiet_sdk [] 0 (init_post (Some [])) \<noteq> reject (Some [])"
  by (simp add: mcp_handler_def try_body_def and_lookup_def quiet_sdk_def init_post_def
      reject_def)

subsection \<open>The catch block of the router\<close>

lemma try_body_Respond500:
  "try_body sdk transports fresh req = (effs, sent, th) \<Longrightarrow> Respond 500 b \<notin> set effs"
  by (auto simp: try_body_def Let_def split: if_splits option.splits prod.splits
      elim!: call_handleRequest.elims)

lemma catch_sent:
  "try_body sdk transports fresh req = (effs, True, Some e) \<Longrightarrow>
   mcp_handler sdk transports fresh req =
     effs @ [Log (logged ERROR ''Error handling MCP request'' (req_sessionId req))]"
  by (simp add: mcp_handler_def catch_block_def)

lemma catch_unsent:
  "try_body sdk transports fresh req = (effs, False, Some e) \<Longrightarrow>
   mcp_handler sdk transports fresh req =
     effs @ [Log (logged ERROR ''Error handling MCP request'' (req_sessionId req)),
             Respond 500 [(''error'', ''Internal server error'')]]"
  by (simp add: mcp_handler_def catch_block_def)

lemma Respond500_origin:
  assumes r: "Respond 500 b \<in> set (mcp_handler sdk transports fresh req)"
  shows "b = [(''error'', ''Internal server error'')]
      \<and> (\<exists>effs' e'. try_body sdk transports fresh req = (effs', False, Some e'))"
proof -
  obtain effs0 sent th where tb: "try_body sdk transports fresh req = (effs0, sent, th)"
    by (cases "try_body sdk transports fresh req") auto
  from try_body_Respond500 [OF tb] have no: "Respond 500 b \<notin> set effs0" .
  from r tb no show ?thesis
    by (cases th; cases sent) (auto simp: mcp_handler_def catch_block_def)
qed

text \<open>
  C9. When an exception leaves the \<^verbatim>\<open>try\<close> block after the response headers were sent,
  the handler adds only the error log entry and writes nothing to the response; when the
  headers were not sent it adds the log entry and the answer 500 with
  \<^verbatim>\<open>{"error":"Internal server error"}\<close>; and an answer 500 of the handler has that body and
  comes from an exception that left the block with the headers not sent.
\<close>

theorem C9_catch_after_headers_sent:
  "(try_body sdk transports fresh req = (effs, True, Some e) \<longrightarrow>
      mcp_handler sdk transports fresh req =
        effs @ [Log (logged ERROR ''Error handling MCP request'' (req_sessionId req))])
   \<and> (try_body sdk transports fresh req = (effs, False, Some e) \<longrightarrow>
      mcp_handler sdk transports fresh req =
        effs @ [Log (logged ERROR ''Error handling MCP request'' (req_sessionId req)),
                Respond 500 [(''error'', ''Internal server error'')]])
   \<and> (Respond 500 b \<in> set (mcp_handler sdk transports fresh req) \<longrightarrow>
      b = [(''error'', ''Internal server error'')]
      \<and> (\<exists>effs' e'. try_body sdk transports fresh req = (effs', False, Some e')))"
  using catch_sent [of sdk transports fresh req effs e]
    catch_unsent [of sdk transports fresh req effs e]
    Respond500_origin [of b sdk transports fresh req]
  by blast

theorem C9_catch_after_headers_sent_witness:
  "try_body (throwing_sdk True) [(''abc'', 4)] 0 (init_post (Some ''abc''))
     = ([HandleRequest 4 (init_post (Some ''abc''))], True, Some ''boom'')
   \<and> mcp_handler (throwing_sdk True) [(''abc'', 4)] 0 (init_post (Some ''abc''))
     = [HandleRequest 4 (init_post (Some ''abc'')), Log (logged ERROR ''Error handling MCP request'' (Some ''abc''))]
   \<and> try_body (throwing_sdk False) [(''abc'', 4)] 0 (init_post (Some ''abc''))
     = ([HandleRequest 4 (init_post (Some ''abc''))], False, Some ''boom'')
   \<and> mcp_handler (throwing_sdk False) [(''abc'', 4)] 0 (init_post (Some ''abc''))
     = [HandleRequest 4 (init_post (Some ''abc'')), Log (logged ERROR ''Error handling MCP request'' (Some ''abc'')),
        Respond 500 [(''error'', ''Internal server error'')]]
   \<and> Respond 500 [(''error'', ''Internal server error'')]
       \<in> set (mcp_handler (throwing_sdk False) [(''abc'', 4)] 0 (init_post (Some ''abc'')))"
proof -
  have t1: "try_body (throwing_sdk True) [(''abc'', 4)] 0 (init_post (Some ''abc''))
     = ([HandleRequest 4 (init_post (Some ''abc''))], True, Some ''boom'')"
    by (simp add: try_body_def and_lookup_def getProp_def throwing_sdk_def init_post_def)
  have t2: "try_body (throwing_sdk False) [(''abc'', 4)] 0 (init_post (Some ''abc''))
     = ([HandleRequest 4 (init_post (Some ''abc''))], False, Some ''boom'')"
    by (simp add: try_body_def and_lookup_def getProp_def throwing_sdk_def init_post_def)
  have s: "req_sessionId (init_post (Some ''abc'')) = Some ''abc''"
    by (simp add: init_post_def)
  from C9_catch_after_headers_sent
    [of "throwing_sdk True" "[(''abc'', 4)]" 0 "init_post (Some ''abc'')" "[HandleRequest 4 (init_post (Some ''abc''))]" "''boom''"
       "[(''error'', ''Internal server error'')]"]
    C9_catch_after_headers_sent
    [of "throwing_sdk False" "[(''abc'', 4)]" 0 "init_post (Some ''abc'')" "[HandleRequest 4 (init_post (Some ''abc''))]" "''boom''"
       "[(''error'', ''Internal server error'')]"]
    t1 t2 s
  show ?thesis by simp
qed

subsection \<open>Lookup and registration\<close>

lemma fresh_ids_mem:
  "fresh_ids ss ts evs \<Longrightarrow> SessionInitialized t s \<in> set evs \<Longrightarrow>
   s \<noteq> [] \<and> s \<notin> set objectPrototypeKeys \<and> s \<notin> set ss \<and> t \<notin> set ts"
proof (induction ss ts evs rule: fresh_ids.induct)
  case (1 ss ts)
  then show ?case by simp
next
  case (2 ss ts t' s' evs)
  then show ?case by auto
next
  case (3 ss ts t' evs)
  then show ?case by auto
qed

lemma fresh_ids_unique:
  "fresh_ids ss ts evs \<Longrightarrow> SessionInitialized t s \<in> set evs \<Longrightarrow>
   SessionInitialized t' s' \<in> set evs \<Longrightarrow> (s = s') = (t = t')"
proof (induction ss ts evs rule: fresh_ids.induct)
  case (1 ss ts)
  then show ?case by simp
next
  case (2 ss ts t0 s0 evs)
  then show ?case using fresh_ids_mem [of "s0 # ss" "t0 # ts" evs] by auto
next
  case (3 ss ts t0 evs)
  then show ?case by auto
qed

lemma fresh_ids_snoc_init:
  "fresh_ids ss ts (evs @ [SessionInitialized t s]) =
     (fresh_ids ss ts evs \<and> s \<noteq> [] \<and> s \<notin> set objectPrototypeKeys \<and> s \<notin> set ss \<and> t \<notin> set ts
      \<and> (\<forall>t' s'. SessionInitialized t' s' \<in> set evs \<longrightarrow> s' \<noteq> s \<and> t' \<noteq> t))"
  by (induction ss ts evs rule: fresh_ids.induct) auto

lemma fresh_ids_snoc_closed:
  "fresh_ids ss ts (evs @ [Closed t]) = fresh_ids ss ts evs"
  by (induction ss ts evs rule: fresh_ids.induct) auto

lemma registered_live_snoc_init:
  "registered_live (evs @ [SessionInitialized t' s']) k t =
     ((t' = t \<and> s' = k) \<or> registered_live evs k t)"
  by (induction evs k t rule: registered_live.induct) auto

lemma registered_live_snoc_closed:
  "registered_live (evs @ [Closed t']) k t = (registered_live evs k t \<and> t' \<noteq> t)"
  by (induction evs k t rule: registered_live.induct) auto

lemma registered_live_mem:
  "registered_live evs k t \<Longrightarrow> SessionInitialized t k \<in> set evs"
  by (induction evs k t rule: registered_live.induct) auto

lemma run_events_snoc: "run_events (evs @ [e]) = sdk_step (run_events evs) e"
  by (simp add: run_events_def)

lemma sessionId_run:
  "fresh_ids [] [] evs \<Longrightarrow>
   (st_sessionId (run_events evs) t = Some s) = (SessionInitialized t s \<in> set evs)"
proof (induction evs rule: rev_induct)
  case Nil
  then show ?case by (simp add: run_events_def started_def)
next
  case (snoc e evs)
  show ?case
  proof (cases e)
    case (SessionInitialized t' s')
    with snoc show ?thesis
      by (auto simp: run_events_snoc fresh_ids_snoc_init onsessioninitialized_def)
  next
    case (Closed t')
    with snoc show ?thesis
      by (auto simp: run_events_snoc fresh_ids_snoc_closed split: prod.splits)
  qed
qed

lemma registry_run:
  "fresh_ids [] [] evs \<Longrightarrow>
   (map_of (st_transports (run_events evs)) k = Some t) = registered_live evs k t"
proof (induction evs arbitrary: k t rule: rev_induct)
  case Nil
  then show ?case by (simp add: run_events_def started_def)
next
  case (snoc e evs)
  show ?case
  proof (cases e)
    case (SessionInitialized t' s')
    with snoc.prems have wf: "fresh_ids [] [] evs"
      and new: "\<forall>t'' s''. SessionInitialized t'' s'' \<in> set evs \<longrightarrow> s'' \<noteq> s' \<and> t'' \<noteq> t'"
      by (simp_all add: fresh_ids_snoc_init)
    from new have "\<not> registered_live evs s' t" using registered_live_mem by blast
    with snoc.IH [OF wf] SessionInitialized show ?thesis
      by (auto simp: run_events_snoc onsessioninitialized_def AList.update_conv'
          registered_live_snoc_init)
  next
    case (Closed t')
    with snoc.prems have wf: "fresh_ids [] [] evs"
      by (simp add: fresh_ids_snoc_closed)
    note IH = snoc.IH [OF wf]
    show ?thesis
    proof (cases "st_sessionId (run_events evs) t'")
      case None
      have "\<not> registered_live evs k t'"
      proof
        assume "registered_live evs k t'"
        then have "SessionInitialized t' k \<in> set evs" by (rule registered_live_mem)
        with sessionId_run [OF wf, of t' k] None show False by simp
      qed
      with None Closed IH show ?thesis
        by (auto simp: run_events_snoc onclose_def registered_live_snoc_closed)
    next
      case (Some s)
      with sessionId_run [OF wf, of t' s] have mem: "SessionInitialized t' s \<in> set evs" by simp
      from fresh_ids_mem [OF wf mem] have ne: "s \<noteq> []" and np: "s \<notin> set objectPrototypeKeys"
        by simp_all
      have uniq: "registered_live evs k0 t1 \<Longrightarrow> (k0 = s) = (t1 = t')" for k0 t1
        using fresh_ids_unique [OF wf _ mem] registered_live_mem by blast
      show ?thesis
      proof (cases "map_of (st_transports (run_events evs)) s")
        case None
        then have "\<not> registered_live evs s t'" using IH [of s t'] by auto
        with uniq [of k t] have "registered_live evs k t \<Longrightarrow> t' \<noteq> t" by blast
        with None Some Closed IH ne np show ?thesis
          by (auto simp: run_events_snoc onclose_def getProp_def registered_live_snoc_closed)
      next
        case (Some t0)
        then have tr: "truthy (getProp (st_transports (run_events evs)) s)"
          by (simp add: getProp_def)
        have step: "st_transports (run_events (evs @ [e]))
                      = AList.delete s (st_transports (run_events evs))"
          using tr ne Closed \<open>st_sessionId (run_events evs) t' = Some s\<close>
          by (simp add: run_events_snoc onclose_def)
        show ?thesis
        proof (cases "k = s")
          case True
          then have "map_of (st_transports (run_events (evs @ [e]))) k = None"
            by (simp add: step AList.delete_conv')
          moreover have "registered_live evs k t \<Longrightarrow> t = t'"
            using True uniq [of k t] by simp
          ultimately show ?thesis
            using Closed by (auto simp: registered_live_snoc_closed)
        next
          case False
          then have "map_of (st_transports (run_events (evs @ [e]))) k
                       = map_of (st_transports (run_events evs)) k"
            by (simp add: step AList.delete_conv')
          moreover have "registered_live evs k t \<Longrightarrow> t \<noteq> t'"
            using False uniq [of k t] by simp
          ultimately show ?thesis
            using Closed IH [of k t] by (auto simp: registered_live_snoc_closed)
        qed
      qed
    qed
  qed
qed

lemma getProp_Own: "(getProp r k = OwnTransport t) = (map_of r k = Some t)"
  by (auto simp: getProp_def split: option.splits)

text \<open>
  C2. In every state the server reaches, a lookup of a session id in the registry yields
  transport \<open>t\<close> if and only if \<open>t\<close> was registered for that id by the initialization
  callback and its close handler has not run since; and at most one transport is
  registered and live for an id.
\<close>

theorem C2_lookup_iff_registered:
  "fresh_ids [] [] evs \<Longrightarrow>
   (getProp (st_transports (run_events evs)) k = OwnTransport t) = registered_live evs k t
   \<and> (registered_live evs k t \<and> registered_live evs k t' \<longrightarrow> t = t')"
  using registry_run [of evs k t] registry_run [of evs k t'] by (auto simp: getProp_Own)


theorem C2_lookup_iff_registered_witness:
  "fresh_ids [] [] two_sessions
   \<and> getProp (st_transports (run_events two_sessions)) ''b2'' = OwnTransport 2
   \<and> registered_live two_sessions ''b2'' 2
   \<and> getProp (st_transports (run_events two_sessions)) ''a1'' \<noteq> OwnTransport 1
   \<and> \<not> registered_live two_sessions ''a1'' 1"
proof -
  have wf: "fresh_ids [] [] two_sessions"
    by (simp add: two_sessions_def objectPrototypeKeys_def)
  have l2: "registered_live two_sessions ''b2'' 2"
    by (simp add: two_sessions_def)
  have l1: "\<not> registered_live two_sessions ''a1'' 1"
    by (simp add: two_sessions_def)
  from C2_lookup_iff_registered [OF wf, of "''b2''" 2 2] l2
  have g2: "getProp (st_transports (run_events two_sessions)) ''b2'' = OwnTransport 2"
    by simp
  from C2_lookup_iff_registered [OF wf, of "''a1''" 1 1] l1
  have g1: "getProp (st_transports (run_events two_sessions)) ''a1'' \<noteq> OwnTransport 1"
    by simp
  from wf l2 l1 g2 g1 show ?thesis by simp
qed

subsection \<open>Every state the callbacks reach is consistent\<close>

lemma distinct_run:
  "distinct (map fst (st_transports (run_events evs)))"
proof (induction evs rule: rev_induct)
  case Nil
  then show ?case by (simp add: run_events_def started_def)
next
  case (snoc e evs)
  then show ?case
    by (cases e)
       (auto simp: run_events_snoc onsessioninitialized_def onclose_def AList.distinct_update
          AList.distinct_delete split: option.splits)
qed

lemma reachable_consistent:
  assumes "fresh_ids [] [] evs"
  shows "consistent (run_events evs)"
proof -
  have "st_sessionId (run_events evs) t = Some k"
    if "(k, t) \<in> set (st_transports (run_events evs))" for k t
  proof -
    from that distinct_run [of evs] have "map_of (st_transports (run_events evs)) k = Some t"
      by simp
    with registry_run [OF assms] have "registered_live evs k t" by simp
    then have "SessionInitialized t k \<in> set evs" by (rule registered_live_mem)
    with sessionId_run [OF assms] show ?thesis by simp
  qed
  then show ?thesis
    by (auto simp: consistent_def distinct_run list_all_iff)
qed

subsection \<open>Shutdown closes every session\<close>

lemma consistent_map_of:
  "consistent p \<Longrightarrow> map_of (st_transports p) k = Some t \<Longrightarrow> st_sessionId p t = Some k"
  by (auto simp: consistent_def list_all_iff dest!: map_of_SomeD)

lemma run_onclose_own:
  assumes "st_sessionId p t = Some k"
  shows "st_transports (run_onclose t p) = st_transports p
         \<or> st_transports (run_onclose t p) = AList.delete k (st_transports p)"
    and "st_sessionId (run_onclose t p) = st_sessionId p"
    and "p_calls (run_onclose t p) = p_calls p"
    and "set (st_log p) \<subseteq> set (st_log (run_onclose t p))"
  using assms by (auto simp: run_onclose_def onclose_def)

lemma call_close_own:
  assumes "st_sessionId p t = Some k"
  shows "st_transports (call_close env t p) = st_transports p
         \<or> st_transports (call_close env t p) = AList.delete k (st_transports p)"
    and "st_sessionId (call_close env t p) = st_sessionId p"
    and "p_calls (call_close env t p) = p_calls p @ [CloseTransport t]"
    and "set (st_log p) \<subseteq> set (st_log (call_close env t p))"
proof -
  let ?p1 = "p\<lparr>p_calls := p_calls p @ [CloseTransport t]\<rparr>"
  have s: "st_sessionId ?p1 t = Some k" using assms by simp
  note own = run_onclose_own [OF s]
  show "st_transports (call_close env t p) = st_transports p
         \<or> st_transports (call_close env t p) = AList.delete k (st_transports p)"
    using own(1) by (auto simp: call_close_def Let_def)
  show "st_sessionId (call_close env t p) = st_sessionId p"
    using own(2) by (simp add: call_close_def Let_def)
  show "p_calls (call_close env t p) = p_calls p @ [CloseTransport t]"
    using own(3) by (simp add: call_close_def Let_def)
  show "set (st_log p) \<subseteq> set (st_log (call_close env t p))"
    using own(4) by (auto simp: call_close_def Let_def)
qed

lemma settled_close_fields:
  "st_transports (settled_close env k t p) = st_transports p"
  "st_sessionId (settled_close env k t p) = st_sessionId p"
  "p_calls (settled_close env k t p) = p_calls p"
  "set (st_log p) \<subseteq> set (st_log (settled_close env k t p))"
  "rejects (transport_close env t) \<noteq> None \<Longrightarrow>
     logged WARN ''Error closing transport'' (Some k) \<in> set (st_log (settled_close env k t p))"
  by (auto simp: settled_close_def log_call_def split: option.splits)

lemma settled_close_own:
  assumes "st_sessionId p t = Some k"
  shows "st_transports (settled_close env k t (call_close env t p)) = st_transports p
         \<or> st_transports (settled_close env k t (call_close env t p))
             = AList.delete k (st_transports p)"
    and "st_sessionId (settled_close env k t (call_close env t p)) = st_sessionId p"
    and "p_calls (settled_close env k t (call_close env t p)) = p_calls p @ [CloseTransport t]"
    and "set (st_log p) \<subseteq> set (st_log (settled_close env k t (call_close env t p)))"
    and "rejects (transport_close env t) \<noteq> None \<Longrightarrow>
         logged WARN ''Error closing transport'' (Some k)
           \<in> set (st_log (settled_close env k t (call_close env t p)))"
  using call_close_own [OF assms, where env = env]
    settled_close_fields [where env = env and k = k and t = t and p = "call_close env t p"]
  by auto

lemma complete_server:
  "complete env AwaitServerClose p = (settled_server_close env p)\<lparr>p_exit := Some 0\<rparr>"
  by (simp add: complete.simps [of env AwaitServerClose p])

lemma complete_transport:
  "complete env (AwaitTransportClose k t rest) p =
     (case forIn env rest (settled_close env k t p) of (k', p') \<Rightarrow> complete env k' p')"
  by (simp add: complete.simps [of env "AwaitTransportClose k t rest" p] split: prod.splits)

lemma settled_server_close_fields:
  "p_calls (settled_server_close env p) = p_calls p"
  "set (st_log p) \<subseteq> set (st_log (settled_server_close env p))"
  by (auto simp: settled_server_close_def log_call_def split: option.splits)

lemma loop_closes_all:
  assumes "distinct ks" and "cons p"
    and "\<forall>k\<in>set ks. map_of (st_transports p) k \<noteq> None"
  shows "(case forIn env ks p of (k0, p0) \<Rightarrow>
           p_calls (complete env k0 p0) =
             p_calls p @ map (\<lambda>k. CloseTransport (the (map_of (st_transports p) k))) ks
               @ [CloseServer]
           \<and> p_exit (complete env k0 p0) = Some 0
           \<and> set (st_log p) \<subseteq> set (st_log (complete env k0 p0))
           \<and> (\<forall>k\<in>set ks. rejects (transport_close env (the (map_of (st_transports p) k))) \<noteq> None
                 \<longrightarrow> logged WARN ''Error closing transport'' (Some k)
                       \<in> set (st_log (complete env k0 p0))))"
  using assms
proof (induction ks arbitrary: p)
  case Nil
  then show ?case
    using settled_server_close_fields [where env = env and p = "p\<lparr>p_calls := p_calls p @ [CloseServer]\<rparr>"]
    by (simp add: complete_server)
next
  case (Cons k ks)
  from Cons.prems obtain t where t: "map_of (st_transports p) k = Some t" by auto
  define pc where "pc = call_close env t p"
  define p2 where "p2 = settled_close env k t pc"
  have sid: "st_sessionId p t = Some k"
    using Cons.prems t by (simp add: cons_def)
  note own = settled_close_own [OF sid, where env = env, folded pc_def, folded p2_def]
  have reg: "map_of (st_transports p2) k' = map_of (st_transports p) k'" if "k' \<noteq> k" for k'
    using own(1) that by (auto simp: AList.delete_conv')
  have sub: "map_of (st_transports p2) k' = Some t' \<Longrightarrow> map_of (st_transports p) k' = Some t'"
    for k' t'
    using own(1) by (auto simp: AList.delete_conv' split: if_splits)
  have c2: "cons p2"
    using Cons.prems(2) sub own(2) by (simp add: cons_def)
  have d2: "distinct ks" and nk: "k \<notin> set ks" using Cons.prems(1) by simp_all
  have reg_ks: "map_of (st_transports p2) k' = map_of (st_transports p) k'" if "k' \<in> set ks" for k'
    using reg [of k'] nk that by (cases "k' = k") simp_all
  have pres: "\<forall>k'\<in>set ks. map_of (st_transports p2) k' \<noteq> None"
    using Cons.prems(3) by (simp add: reg_ks)
  have same: "map (\<lambda>k. CloseTransport (the (map_of (st_transports p2) k))) ks
              = map (\<lambda>k. CloseTransport (the (map_of (st_transports p) k))) ks"
    by (rule map_cong) (simp_all add: reg_ks)
  obtain k0 p0 where f: "forIn env ks p2 = (k0, p0)" by (cases "forIn env ks p2") auto
  from Cons.IH [OF d2 c2 pres] f
  have ih: "p_calls (complete env k0 p0) =
             p_calls p2 @ map (\<lambda>k. CloseTransport (the (map_of (st_transports p2) k))) ks
               @ [CloseServer]"
    "p_exit (complete env k0 p0) = Some 0"
    "set (st_log p2) \<subseteq> set (st_log (complete env k0 p0))"
    "\<forall>k\<in>set ks. rejects (transport_close env (the (map_of (st_transports p2) k))) \<noteq> None
        \<longrightarrow> logged WARN ''Error closing transport'' (Some k) \<in> set (st_log (complete env k0 p0))"
    by simp_all
  have fin: "forIn env (k # ks) p = (AwaitTransportClose k t ks, pc)"
    using t by (simp add: pc_def)
  have cmp: "complete env (AwaitTransportClose k t ks) pc = complete env k0 p0"
    using f by (simp add: complete_transport p2_def)
  have calls: "p_calls p2 = p_calls p @ [CloseTransport t]"
    using own(3) by simp
  have logs: "set (st_log p) \<subseteq> set (st_log p2)"
    using own(4) by simp
  have warn_k: "rejects (transport_close env t) \<noteq> None \<Longrightarrow>
      logged WARN ''Error closing transport'' (Some k) \<in> set (st_log (complete env k0 p0))"
    using own(5) ih(3) by auto
  have warn_ks: "\<forall>k'\<in>set ks. rejects (transport_close env (the (map_of (st_transports p) k'))) \<noteq> None
        \<longrightarrow> logged WARN ''Error closing transport'' (Some k') \<in> set (st_log (complete env k0 p0))"
    using ih(4) by (simp add: reg_ks)
  show ?case
    unfolding fin prod.case cmp
    using ih(1,2,3) same calls logs warn_k warn_ks t
    by auto
qed

lemma consistent_cons: "consistent p \<Longrightarrow> cons p"
  using consistent_map_of by (auto simp: cons_def)

lemma map_the_map_of:
  "distinct (map fst r) \<Longrightarrow> map (\<lambda>k. f (the (map_of r k))) (map fst r) = map (\<lambda>(k, t). f t) r"
  by (induction r) (auto intro!: map_cong simp: rev_image_eqI)


lemma handleShutdown_loop:
  "handleShutdown env p =
     (case forIn env (map fst (st_transports p))
             (log_call (logged INFO ''Shutting down HTTP server...'' None) p) of
        (k, p1) \<Rightarrow> complete env k p1)"
  by (simp add: handleShutdown_def handleShutdown_enter_def Let_def log_call_def)

lemma the_map_of_entry:
  "distinct (map fst r) \<Longrightarrow> (k, t) \<in> set r \<Longrightarrow> the (map_of r k) = t"
  by simp

text \<open>
  C3. Run to its end with nothing in between, the shutdown calls \<^verbatim>\<open>close()\<close> on the
  transport of every session that was registered when it began, in the order of the
  registry and whatever the earlier calls did, then calls \<^verbatim>\<open>mcpServer.close()\<close>, and
  exits with status 0; a session whose close fails has the warning in the log. The close
  calls may fail or succeed, and may or may not run the close handler, in any combination.
\<close>

theorem C3_shutdown_closes_every_session:
  assumes "consistent p"
  shows "p_calls (handleShutdown env p) =
           p_calls p @ map (\<lambda>(k, t). CloseTransport t) (st_transports p) @ [CloseServer]
         \<and> p_exit (handleShutdown env p) = Some 0
         \<and> (\<forall>(k, t)\<in>set (st_transports p).
               rejects (transport_close env t) \<noteq> None \<longrightarrow>
               logged WARN ''Error closing transport'' (Some k)
                 \<in> set (st_log (handleShutdown env p)))"
proof -
  define p1 where "p1 = log_call (logged INFO ''Shutting down HTTP server...'' None) p"
  have same: "st_transports p1 = st_transports p" "st_sessionId p1 = st_sessionId p"
    "p_calls p1 = p_calls p"
    by (simp_all add: p1_def log_call_def)
  from assms have d: "distinct (map fst (st_transports p1))"
    by (simp add: consistent_def same)
  from assms have c: "cons p1"
    using consistent_cons [of p] by (simp add: cons_def same)
  have pres: "\<forall>k\<in>set (map fst (st_transports p1)). map_of (st_transports p1) k \<noteq> None"
    by (auto simp: map_of_eq_None_iff)
  obtain k0 p0 where f: "forIn env (map fst (st_transports p1)) p1 = (k0, p0)"
    by (cases "forIn env (map fst (st_transports p1)) p1") auto
  have hs: "handleShutdown env p = complete env k0 p0"
    using f by (simp add: handleShutdown_loop p1_def same [unfolded p1_def])
  from loop_closes_all [OF d c pres, of env] f
  have r: "p_calls (complete env k0 p0) =
             p_calls p1 @ map (\<lambda>k. CloseTransport (the (map_of (st_transports p1) k)))
                            (map fst (st_transports p1)) @ [CloseServer]"
    "p_exit (complete env k0 p0) = Some 0"
    "\<forall>k\<in>set (map fst (st_transports p1)).
        rejects (transport_close env (the (map_of (st_transports p1) k))) \<noteq> None
        \<longrightarrow> logged WARN ''Error closing transport'' (Some k) \<in> set (st_log (complete env k0 p0))"
    by simp_all
  have calls: "p_calls (handleShutdown env p) =
           p_calls p @ map (\<lambda>(k, t). CloseTransport t) (st_transports p) @ [CloseServer]"
    using r(1) d map_the_map_of [of "st_transports p" CloseTransport]
    by (simp add: hs same)
  have warn: "\<forall>(k, t)\<in>set (st_transports p).
               rejects (transport_close env t) \<noteq> None \<longrightarrow>
               logged WARN ''Error closing transport'' (Some k)
                 \<in> set (st_log (handleShutdown env p))"
  proof (clarify)
    fix k t m
    assume m: "(k, t) \<in> set (st_transports p)"
      and rj: "rejects (transport_close env t) = Some m"
    from d m have "the (map_of (st_transports p1) k) = t"
      by (simp add: same)
    moreover from m have "k \<in> set (map fst (st_transports p1))"
      by (force simp: same)
    ultimately show "logged WARN ''Error closing transport'' (Some k)
                 \<in> set (st_log (handleShutdown env p))"
      using r(3) rj by (auto simp: hs)
  qed
  from calls r(2) warn show ?thesis by (simp add: hs)
qed


theorem C3_shutdown_closes_every_session_witness:
  "consistent (serving [(''a1'', 1), (''b2'', 2)])
   \<and> p_calls (handleShutdown (failing_close [1]) (serving [(''a1'', 1), (''b2'', 2)]))
       = [CloseTransport 1, CloseTransport 2, CloseServer]
   \<and> p_exit (handleShutdown (failing_close [1]) (serving [(''a1'', 1), (''b2'', 2)])) = Some 0
   \<and> logged WARN ''Error closing transport'' (Some ''a1'')
       \<in> set (st_log (handleShutdown (failing_close [1]) (serving [(''a1'', 1), (''b2'', 2)])))"
proof -
  have c: "consistent (serving [(''a1'', 1), (''b2'', 2)])"
    by (simp add: consistent_def serving_def)
  have f: "rejects (transport_close (failing_close [1]) 1) \<noteq> None"
    by (simp add: failing_close_def)
  have r: "st_transports (serving [(''a1'', 1), (''b2'', 2)]) = [(''a1'', 1), (''b2'', 2)]"
    "p_calls (serving [(''a1'', 1), (''b2'', 2)]) = []"
    by (simp_all add: serving_def)
  from C3_shutdown_closes_every_session [OF c, of "failing_close [1]", unfolded r] f c
  show ?thesis by simp
qed

subsection \<open>Triggers of the shutdown\<close>

lemma entries_append:
  "entries (p\<lparr>st_log := st_log p @ l\<rparr>) =
     entries p + length (filter (\<lambda>e. msg e = ''Shutting down HTTP server...'') l)"
  by (simp add: entries_def)

lemma run_onclose_keeps:
  "p_suspended (run_onclose t p) = p_suspended p"
  "p_exit (run_onclose t p) = p_exit p"
  "p_calls (run_onclose t p) = p_calls p"
  "entries (run_onclose t p) = entries p"
  by (auto simp: run_onclose_def onclose_def entries_def logged_def split: option.splits)

lemma call_close_keeps:
  "p_suspended (call_close env t p) = p_suspended p"
  "p_exit (call_close env t p) = p_exit p"
  "length (p_calls (call_close env t p)) = Suc (length (p_calls p))"
  "entries (call_close env t p) = entries p"
  by (simp_all add: call_close_def Let_def run_onclose_keeps) (simp add: entries_def)

lemma forIn_keeps:
  "p_suspended (snd (forIn env ks p)) = p_suspended p"
  "p_exit (snd (forIn env ks p)) = p_exit p"
  "length (p_calls (snd (forIn env ks p))) = Suc (length (p_calls p))"
  "entries (snd (forIn env ks p)) = entries p"
proof (induction ks)
  case Nil
  show "p_suspended (snd (forIn env [] p)) = p_suspended p" by simp
  show "p_exit (snd (forIn env [] p)) = p_exit p" by simp
  show "length (p_calls (snd (forIn env [] p))) = Suc (length (p_calls p))" by simp
  show "entries (snd (forIn env [] p)) = entries p" by (simp add: entries_def)
next
  case (Cons k ks)
  show "p_suspended (snd (forIn env (k # ks) p)) = p_suspended p"
    using Cons(1) by (simp add: call_close_keeps split: option.splits)
  show "p_exit (snd (forIn env (k # ks) p)) = p_exit p"
    using Cons(2) by (simp add: call_close_keeps split: option.splits)
  show "length (p_calls (snd (forIn env (k # ks) p))) = Suc (length (p_calls p))"
    using Cons(3) by (simp add: call_close_keeps split: option.splits)
  show "entries (snd (forIn env (k # ks) p)) = entries p"
    using Cons(4) by (simp add: call_close_keeps split: option.splits)
qed

lemma entries_log_other:
  "m \<noteq> ''Shutting down HTTP server...'' \<Longrightarrow> entries (log_call (logged l m s) p) = entries p"
  by (simp add: entries_def log_call_def logged_def)

lemma call_handleShutdown_effect:
  "entries (call_handleShutdown env p) = Suc (entries p)"
  "length (p_suspended (call_handleShutdown env p)) = Suc (length (p_suspended p))"
  "length (p_calls (call_handleShutdown env p)) = Suc (length (p_calls p))"
proof -
  define p1 where "p1 = log_call (logged INFO ''Shutting down HTTP server...'' None) p"
  obtain k p2 where f: "forIn env (map fst (st_transports p1)) p1 = (k, p2)"
    by (cases "forIn env (map fst (st_transports p1)) p1") auto
  then have p2: "p2 = snd (forIn env (map fst (st_transports p1)) p1)" by simp
  have c: "call_handleShutdown env p = p2\<lparr>p_suspended := p_suspended p2 @ [k]\<rparr>"
    using f by (simp add: call_handleShutdown_def handleShutdown_enter_def Let_def p1_def)
  have e1: "entries p1 = Suc (entries p)"
    by (simp add: p1_def log_call_def entries_def logged_def)
  have l: "entries p2 = Suc (entries p)"
    "p_suspended p2 = p_suspended p" "length (p_calls p2) = Suc (length (p_calls p))"
    unfolding p2 forIn_keeps by (simp_all add: e1) (simp_all add: p1_def log_call_def)
  show "entries (call_handleShutdown env p) = Suc (entries p)"
    using l(1) by (simp add: c entries_def)
  show "length (p_suspended (call_handleShutdown env p)) = Suc (length (p_suspended p))"
    by (simp add: c l)
  show "length (p_calls (call_handleShutdown env p)) = Suc (length (p_calls p))"
    by (simp add: c l)
qed






text \<open>
  C5, at the failing input. In the HTTP entry point the listener of
  \<^verbatim>\<open>unhandledRejection\<close> only logs: no close call is made, no activation of the shutdown
  begins and the process does not exit. The stdio entry point's listener of the same event,
  and the HTTP listener of \<^verbatim>\<open>uncaughtException\<close>, do start the shutdown.
\<close>

theorem C5_http_unhandled_rejection_only_logs:
  "http_on env (UnhandledRejection r) p = log_call (logged ERROR ''Unhandled rejection'' None) p
   \<and> p_calls (http_on env (UnhandledRejection r) p) = p_calls p
   \<and> p_suspended (http_on env (UnhandledRejection r) p) = p_suspended p
   \<and> p_exit (http_on env (UnhandledRejection r) p) = p_exit p
   \<and> entries (http_on env (UnhandledRejection r) p) = entries p
   \<and> sp_calls (stdio_on (UnhandledRejection r) q) = sp_calls q @ [CloseServer]
   \<and> sp_calls (stdio_on (UncaughtException m) q) = sp_calls q @ [CloseServer]
   \<and> length (p_calls (http_on env (UncaughtException m) p)) = Suc (length (p_calls p))"
  using call_handleShutdown_effect(3)
          [of env "log_call (logged ERROR ''Uncaught exception'' None) p"]
  by (simp add: entries_log_other stdio_handleShutdown_enter_def) (simp add: log_call_def)

subsection \<open>A failed tool call is a result\<close>

lemma show_nat_30000: "show_nat 30000 = ''30000''"
  by (simp add: show_nat.simps)

lemma tool_catch_ExternalApiError:
  "tool_catch (ExternalApiError m c r) =
     Inr \<lparr>content = [TextItem (''Error interacting with Gemini API: ''
                         @ formatErrorForUser (ExternalApiError m c r))],
          isError = Some True\<rparr>"
  by (simp add: ExternalApiError_def)

lemma callGeminiApi_rejection:
  "callGeminiApi config outcome = Inl error \<Longrightarrow>
   (\<exists>m c r. error = ExternalApiError m c r) \<or> (\<exists>m. error = ErrorObj m)"
  by (auto simp: callGeminiApi_def api_catch_def split: if_splits sdk_outcome.splits option.splits)

lemma callGemini_failure:
  assumes "callGeminiApi config outcome = Inl error"
  shows "callGemini config outcome =
           Inr \<lparr>content = [TextItem (''Error interacting with Gemini API: ''
                               @ formatErrorForUser error)],
                isError = Some True\<rparr>"
  using callGeminiApi_rejection [OF assms] assms
  by (auto simp: callGemini_def tool_catch_ExternalApiError)

lemma callGemini_returns: "\<exists>r. callGemini config outcome = Inr r"
proof (cases "callGeminiApi config outcome")
  case (Inl error)
  then show ?thesis using callGemini_failure by blast
next
  case (Inr response)
  then show ?thesis by (simp add: callGemini_def)
qed

lemma callGeminiApi_timeout:
  "geminiApiKey config \<noteq> [] \<Longrightarrow> requestTimeoutMs config = 30000 \<Longrightarrow>
   f_code failure = Some (StatusStr ''DEADLINE_EXCEEDED'') \<Longrightarrow>
   callGeminiApi config (Throws failure) =
     Inl (ExternalApiErrorObj ''External API error: Request timed out after 30000ms''
            (Some (StatusNum 408)) (Some ''Request took too long to complete''))"
  by (simp add: callGeminiApi_def api_catch_def ExternalApiError_def show_nat_30000)

lemma show_nat_408: "show_nat 408 = ''408''"
  by (simp add: show_nat.simps)

text \<open>
  C4 (as amended). The tool implementation never throws: for every outcome of the
  outbound call it returns a result. When the outbound call fails, the result has
  \<^verbatim>\<open>isError\<close> true and a single text item, the formatted error after the prefix
  \<^verbatim>\<open>Error interacting with Gemini API: \<close>. For a timeout of the SDK with the default
  30000 ms the text is \<^verbatim>\<open>Error interacting with Gemini API: API request failed (status
  408): External API error: Request timed out after 30000ms\<close>: the message of an
  \<^verbatim>\<open>ExternalApiError\<close> always begins with \<^verbatim>\<open>External API error: \<close>.
\<close>

theorem C4_tool_failure_is_result:
  "(\<exists>r. callGemini config outcome = Inr r)
   \<and> (callGeminiApi config outcome = Inl error \<longrightarrow>
        callGemini config outcome =
          Inr \<lparr>content = [TextItem (''Error interacting with Gemini API: ''
                              @ formatErrorForUser error)],
               isError = Some True\<rparr>)
   \<and> (geminiApiKey config \<noteq> [] \<and> requestTimeoutMs config = 30000
        \<and> f_code failure = Some (StatusStr ''DEADLINE_EXCEEDED'') \<longrightarrow>
        callGemini config (Throws failure) =
          Inr \<lparr>content = [TextItem ''Error interacting with Gemini API: API request failed (status 408): External API error: Request timed out after 30000ms''],
               isError = Some True\<rparr>)"
proof (intro conjI impI)
  show "\<exists>r. callGemini config outcome = Inr r" by (rule callGemini_returns)
next
  assume "callGeminiApi config outcome = Inl error"
  then show "callGemini config outcome =
          Inr \<lparr>content = [TextItem (''Error interacting with Gemini API: ''
                              @ formatErrorForUser error)],
               isError = Some True\<rparr>"
    by (rule callGemini_failure)
next
  assume a: "geminiApiKey config \<noteq> [] \<and> requestTimeoutMs config = 30000
        \<and> f_code failure = Some (StatusStr ''DEADLINE_EXCEEDED'')"
  then have "callGeminiApi config (Throws failure) =
     Inl (ExternalApiErrorObj ''External API error: Request timed out after 30000ms''
            (Some (StatusNum 408)) (Some ''Request took too long to complete''))"
    by (simp add: callGeminiApi_timeout)
  then show "callGemini config (Throws failure) =
          Inr \<lparr>content = [TextItem ''Error interacting with Gemini API: API request failed (status 408): External API error: Request timed out after 30000ms''],
               isError = Some True\<rparr>"
    by (simp add: callGemini_def show_nat_408)
qed

theorem C4_tool_failure_is_result_witness:
  "callGeminiApi default_config deadline_exceeded =
     Inl (ExternalApiErrorObj ''External API error: Request timed out after 30000ms''
            (Some (StatusNum 408)) (Some ''Request took too long to complete''))
   \<and> callGemini default_config deadline_exceeded =
       Inr \<lparr>content = [TextItem ''Error interacting with Gemini API: API request failed (status 408): External API error: Request timed out after 30000ms''],
            isError = Some True\<rparr>"
proof -
  have a: "geminiApiKey default_config \<noteq> [] \<and> requestTimeoutMs default_config = 30000
        \<and> f_code \<lparr>f_code = Some (StatusStr ''DEADLINE_EXCEEDED''),
                    f_message = Some ''Deadline exceeded'', f_details = None, f_stack = None\<rparr>
            = Some (StatusStr ''DEADLINE_EXCEEDED'')"
    by (simp add: default_config_def)
  have b: "callGeminiApi default_config deadline_exceeded =
     Inl (ExternalApiErrorObj ''External API error: Request timed out after 30000ms''
            (Some (StatusNum 408)) (Some ''Request took too long to complete''))"
    using a by (simp add: deadline_exceeded_def callGeminiApi_timeout)
  from C4_tool_failure_is_result
         [of default_config deadline_exceeded
             "ExternalApiErrorObj ''External API error: Request timed out after 30000ms''
                (Some (StatusNum 408)) (Some ''Request took too long to complete'')"
             "\<lparr>f_code = Some (StatusStr ''DEADLINE_EXCEEDED''),
               f_message = Some ''Deadline exceeded'', f_details = None, f_stack = None\<rparr>"]
       a
  have c: "callGemini default_config
             (Throws \<lparr>f_code = Some (StatusStr ''DEADLINE_EXCEEDED''),
                f_message = Some ''Deadline exceeded'', f_details = None, f_stack = None\<rparr>) =
       Inr \<lparr>content = [TextItem ''Error interacting with Gemini API: API request failed (status 408): External API error: Request timed out after 30000ms''],
            isError = Some True\<rparr>"
    by blast
  from b c show ?thesis by (simp add: deadline_exceeded_def)
qed

text \<open>
  The claim as first stated fails: at the simulated timeout the text of the result is not
  the one the claim gives, which lacks \<^verbatim>\<open>External API error: \<close>.
\<close>

theorem C4_timeout_text_counterexample:
  "callGemini default_config deadline_exceeded \<noteq>
     Inr \<lparr>content = [TextItem ''Error interacting with Gemini API: API request failed (status 408): Request timed out after 30000ms''],
          isError = Some True\<rparr>"
  by (simp add: callGemini_def callGeminiApi_def api_catch_def ExternalApiError_def
      default_config_def deadline_exceeded_def show_nat_30000 show_nat_408)

subsection \<open>What the schema accepts\<close>

lemmas zod_defs =
  schema_model_def schema_prompt_def schema_temperature_def schema_maxOutputTokens_def
  schema_topK_def schema_topP_def schema_enableGrounding_def zdefault_def optional_def
  zparse_def z_string_def z_number_def z_boolean_def str_min_def num_min_def num_max_def
  num_int_def num_positive_def refine_def

lemma schema_temperature_accepts:
  "schema_temperature (Some v) = Inr r \<Longrightarrow> \<exists>x. v = JNum x \<and> 0 \<le> x \<and> x \<le> 1"
  by (cases v) (auto simp: zod_defs split: if_splits)

lemma schema_maxOutputTokens_accepts:
  "schema_maxOutputTokens (Some v) = Inr r \<Longrightarrow>
   \<exists>x. v = JNum x \<and> x \<in> \<int> \<and> 1 \<le> x \<and> x \<le> 8192"
proof (cases v)
  case (JNum x)
  assume "schema_maxOutputTokens (Some v) = Inr r"
  with JNum have i: "of_int \<lfloor>x\<rfloor> = x" and p: "0 < x" and m: "x \<le> 8192"
    by (auto simp: zod_defs split: if_splits)
  from i have z: "x \<in> \<int>" by (metis Ints_of_int)
  from i p have "0 < \<lfloor>x\<rfloor>" by linarith
  then have "1 \<le> \<lfloor>x\<rfloor>" by simp
  with i have "1 \<le> x" by linarith
  with JNum z m show ?thesis by simp
qed (auto simp: zod_defs)

lemma schema_prompt_empty: "schema_prompt (Some (JStr [])) = Inl [''Prompt cannot be empty'']"
  by (simp add: zod_defs)

lemma schema_defaults:
  "schema_model None = Inr ''gemini-1.5-flash-latest''"
  "schema_temperature None = Inr (Some 0.7)"
  "schema_maxOutputTokens None = Inr (Some 2048)"
  by (simp_all add: zod_defs)

lemma schema_object_accepts:
  "geminiToolInputSchema a = Inr i \<Longrightarrow>
   schema_model (arg_model a) = Inr (model i)
   \<and> schema_prompt (arg_prompt a) = Inr (prompt i)
   \<and> schema_temperature (arg_temperature a) = Inr (temperature i)
   \<and> schema_maxOutputTokens (arg_maxOutputTokens a) = Inr (maxOutputTokens i)"
  by (auto simp: geminiToolInputSchema_def Let_def split: sum.splits)

lemma call_tool_cases:
  "(\<exists>issues. call_tool callback a = InvalidParams issues)
   \<or> (\<exists>i. geminiToolInputSchema a = Inr i \<and> call_tool callback a = Invoked (callback i))"
  by (cases "geminiToolInputSchema a") (auto simp: call_tool_def)

lemma call_tool_rejects:
  "(\<And>i. geminiToolInputSchema a \<noteq> Inr i) \<Longrightarrow> \<exists>issues. call_tool callback a = InvalidParams issues"
  using call_tool_cases [of callback a] by auto

text \<open>
  C7. Arguments are rejected, and the tool implementation is not called, when
  \<^verbatim>\<open>temperature\<close> is given and is not a number in [0, 1], when \<^verbatim>\<open>prompt\<close> is the empty
  string, and when \<^verbatim>\<open>maxOutputTokens\<close> is given and is not an integer in [1, 8192]. When
  the implementation is called it gets the parsed arguments, in which an omitted
  \<^verbatim>\<open>model\<close> is \<^verbatim>\<open>gemini-1.5-flash-latest\<close>, an omitted \<^verbatim>\<open>temperature\<close> is 0.7 and an
  omitted \<^verbatim>\<open>maxOutputTokens\<close> is 2048.
\<close>

theorem C7_parameter_validation:
  "(arg_temperature a = Some v \<and> \<not> (\<exists>x. v = JNum x \<and> 0 \<le> x \<and> x \<le> 1) \<longrightarrow>
      (\<exists>issues. call_tool callback a = InvalidParams issues))
   \<and> (arg_prompt a = Some (JStr []) \<longrightarrow>
      (\<exists>issues. call_tool callback a = InvalidParams issues))
   \<and> (arg_maxOutputTokens a = Some v
        \<and> \<not> (\<exists>x. v = JNum x \<and> x \<in> \<int> \<and> 1 \<le> x \<and> x \<le> 8192) \<longrightarrow>
      (\<exists>issues. call_tool callback a = InvalidParams issues))
   \<and> (call_tool callback a = Invoked r \<longrightarrow>
      (\<exists>i. geminiToolInputSchema a = Inr i \<and> r = callback i
         \<and> (arg_model a = None \<longrightarrow> model i = ''gemini-1.5-flash-latest'')
         \<and> (arg_temperature a = None \<longrightarrow> temperature i = Some 0.7)
         \<and> (arg_maxOutputTokens a = None \<longrightarrow> maxOutputTokens i = Some 2048)))"
proof (intro conjI impI)
  assume h: "arg_temperature a = Some v \<and> \<not> (\<exists>x. v = JNum x \<and> 0 \<le> x \<and> x \<le> 1)"
  show "\<exists>issues. call_tool callback a = InvalidParams issues"
  proof (rule call_tool_rejects)
    fix i show "geminiToolInputSchema a \<noteq> Inr i"
      using h schema_object_accepts [of a i] schema_temperature_accepts [of v "temperature i"]
      by auto
  qed
next
  assume h: "arg_prompt a = Some (JStr [])"
  show "\<exists>issues. call_tool callback a = InvalidParams issues"
  proof (rule call_tool_rejects)
    fix i show "geminiToolInputSchema a \<noteq> Inr i"
      using h schema_object_accepts [of a i] schema_prompt_empty by auto
  qed
next
  assume h: "arg_maxOutputTokens a = Some v
        \<and> \<not> (\<exists>x. v = JNum x \<and> x \<in> \<int> \<and> 1 \<le> x \<and> x \<le> 8192)"
  show "\<exists>issues. call_tool callback a = InvalidParams issues"
  proof (rule call_tool_rejects)
    fix i show "geminiToolInputSchema a \<noteq> Inr i"
      using h schema_object_accepts [of a i]
        schema_maxOutputTokens_accepts [of v "maxOutputTokens i"]
      by auto
  qed
next
  assume h: "call_tool callback a = Invoked r"
  with call_tool_cases [of callback a] obtain i
    where i: "geminiToolInputSchema a = Inr i" and r: "r = callback i"
    by auto
  from schema_object_accepts [OF i] schema_defaults
  have "(arg_model a = None \<longrightarrow> model i = ''gemini-1.5-flash-latest'')
         \<and> (arg_temperature a = None \<longrightarrow> temperature i = Some 0.7)
         \<and> (arg_maxOutputTokens a = None \<longrightarrow> maxOutputTokens i = Some 2048)"
    by auto
  with i r show "\<exists>i. geminiToolInputSchema a = Inr i \<and> r = callback i
         \<and> (arg_model a = None \<longrightarrow> model i = ''gemini-1.5-flash-latest'')
         \<and> (arg_temperature a = None \<longrightarrow> temperature i = Some 0.7)
         \<and> (arg_maxOutputTokens a = None \<longrightarrow> maxOutputTokens i = Some 2048)"
    by auto
qed

theorem C7_parameter_validation_witness:
  "(\<exists>issues. call_tool prompt hot_args = InvalidParams issues)
   \<and> (\<exists>issues. call_tool prompt (only_prompt []) = InvalidParams issues)
   \<and> (\<exists>issues. call_tool prompt long_args = InvalidParams issues)
   \<and> (\<exists>i. call_tool prompt (only_prompt ''hi'') = Invoked ''hi''
          \<and> geminiToolInputSchema (only_prompt ''hi'') = Inr i
          \<and> model i = ''gemini-1.5-flash-latest'' \<and> temperature i = Some 0.7
          \<and> maxOutputTokens i = Some 2048)"
proof -
  have t: "arg_temperature hot_args = Some (JNum 1.5)
           \<and> \<not> (\<exists>x. JNum 1.5 = JNum x \<and> 0 \<le> x \<and> x \<le> 1)"
    by (simp add: hot_args_def only_prompt_def)
  have p: "arg_prompt (only_prompt []) = Some (JStr [])"
    by (simp add: only_prompt_def)
  have m: "arg_maxOutputTokens long_args = Some (JNum 9000)
           \<and> \<not> (\<exists>x. JNum 9000 = JNum x \<and> x \<in> \<int> \<and> 1 \<le> x \<and> x \<le> 8192)"
    by (simp add: long_args_def only_prompt_def)
  have d: "call_tool prompt (only_prompt ''hi'') = Invoked ''hi''"
    by (simp add: call_tool_def geminiToolInputSchema_def only_prompt_def zod_defs)
  have n: "arg_model (only_prompt ''hi'') = None \<and> arg_temperature (only_prompt ''hi'') = None
           \<and> arg_maxOutputTokens (only_prompt ''hi'') = None"
    by (simp add: only_prompt_def)
  from C7_parameter_validation [of hot_args "JNum 1.5" prompt "''hi''"] t
  have 1: "\<exists>issues. call_tool prompt hot_args = InvalidParams issues" by blast
  from C7_parameter_validation [of "only_prompt []" "JNum 1.5" prompt "''hi''"] p
  have 2: "\<exists>issues. call_tool prompt (only_prompt []) = InvalidParams issues" by blast
  from C7_parameter_validation [of long_args "JNum 9000" prompt "''hi''"] m
  have 3: "\<exists>issues. call_tool prompt long_args = InvalidParams issues" by blast
  from C7_parameter_validation [of "only_prompt ''hi''" "JNum 9000" prompt "''hi''"] d n
  have 4: "\<exists>i. geminiToolInputSchema (only_prompt ''hi'') = Inr i
          \<and> model i = ''gemini-1.5-flash-latest'' \<and> temperature i = Some 0.7
          \<and> maxOutputTokens i = Some 2048"
    by auto
  from 1 2 3 4 d show ?thesis by simp
qed

subsection \<open>Redaction is shallow\<close>

lemma startsWith_append: "startsWith s (a @ b) \<Longrightarrow> startsWith s a"
  by (induction s a rule: startsWith.induct) auto

lemma startsWith_drop: "startsWith s (a @ b) \<Longrightarrow> startsWith (drop (length a) s) b"
  by (induction s a rule: startsWith.induct) auto

lemma str_includes_drop: "str_includes (drop n s) sub \<Longrightarrow> str_includes s sub"
proof (induction s arbitrary: n)
  case Nil
  then show ?case by simp
next
  case (Cons c s)
  then show ?case by (cases n) auto
qed

lemma str_includes_startsWith: "startsWith s sub \<Longrightarrow> str_includes s sub"
  by (cases s) (auto elim: startsWith.elims)

lemma str_includes_suffix: "str_includes s (a @ b) \<Longrightarrow> str_includes s b"
proof (induction s)
  case Nil
  then show ?case by simp
next
  case (Cons c s)
  from Cons.prems have "startsWith (c # s) (a @ b) \<or> str_includes s (a @ b)" by simp
  then show ?case
  proof
    assume "startsWith (c # s) (a @ b)"
    then have "startsWith (drop (length a) (c # s)) b" by (rule startsWith_drop)
    then have "str_includes (drop (length a) (c # s)) b" by (rule str_includes_startsWith)
    then show ?thesis by (rule str_includes_drop)
  next
    assume "str_includes s (a @ b)"
    then have "str_includes s b" by (rule Cons.IH)
    then show ?thesis by simp
  qed
qed

lemma startsWith_set: "startsWith s sub \<Longrightarrow> set sub \<subseteq> set s"
  by (induction s sub rule: startsWith.induct) auto

lemma str_includes_set: "str_includes s sub \<Longrightarrow> set sub \<subseteq> set s"
proof (induction s)
  case Nil
  then show ?case by simp
next
  case (Cons c s)
  then show ?case using startsWith_set [of "c # s" sub] by auto
qed

lemma lower_char_not_K: "lower_char c \<noteq> CHR ''K''"
proof (cases "map_of (zip upper_letters lower_letters) c")
  case None
  have "length upper_letters = length lower_letters"
    by (simp add: upper_letters_def lower_letters_def)
  with None have "c \<notin> set upper_letters" by (simp add: map_of_zip_is_None)
  moreover have "CHR ''K'' \<in> set upper_letters" by (simp add: upper_letters_def)
  ultimately have "c \<noteq> CHR ''K''" by blast
  with None show ?thesis by (simp add: lower_char_def)
next
  case (Some l)
  then have "(c, l) \<in> set (zip upper_letters lower_letters)" by (rule map_of_SomeD)
  then have "l \<in> set lower_letters" by (rule set_zip_rightD)
  moreover have "CHR ''K'' \<notin> set lower_letters" by (simp add: lower_letters_def)
  ultimately have "l \<noteq> CHR ''K''" by blast
  with Some show ?thesis by (simp add: lower_char_def)
qed

lemma toLowerCase_no_apiKey: "\<not> str_includes (toLowerCase key) ''apiKey''"
proof
  assume "str_includes (toLowerCase key) ''apiKey''"
  then have "set ''apiKey'' \<subseteq> set (toLowerCase key)" by (rule str_includes_set)
  then have "CHR ''K'' \<in> lower_char ` set key" by (simp add: toLowerCase_def)
  then obtain x where "lower_char x = CHR ''K''" by auto
  with lower_char_not_K [of x] show False by simp
qed

lemma apikey_has_key: "str_includes s ''apikey'' \<Longrightarrow> str_includes s ''key''"
  using str_includes_suffix [of s "''api''" "''key''"] by simp

lemma is_sensitive_named: "is_sensitive key = named_sensitive key"
  using toLowerCase_no_apiKey [of key] apikey_has_key [of "toLowerCase key"]
  by (auto simp: is_sensitive_def named_sensitive_def sensitiveKeys_def)

lemma update_present:
  "distinct (map fst al) \<Longrightarrow> k \<in> fst ` set al \<Longrightarrow>
   AList.update k v al = map (\<lambda>(k', v'). (k', if k' = k then v else v')) al"
proof (induction al)
  case Nil
  then show ?case by simp
next
  case (Cons a al)
  obtain k0 v0 where a: "a = (k0, v0)" by (cases a)
  show ?case
  proof (cases "k0 = k")
    case True
    with Cons.prems a have "k \<notin> fst ` set al" by auto
    then have "map (\<lambda>(k', v'). (k', if k' = k then v else v')) al = al"
      by (induction al) auto
    with True a show ?thesis by simp
  next
    case False
    with Cons a show ?thesis by auto
  qed
qed

lemma redact_keys_fold:
  "distinct (map fst acc) \<Longrightarrow> set ks \<subseteq> fst ` set acc \<Longrightarrow>
   foldl redact_key acc ks =
     map (\<lambda>(k, v). (k, if k \<in> set ks \<and> is_sensitive k then MStr ''[REDACTED]'' else v)) acc"
proof (induction ks arbitrary: acc)
  case Nil
  then show ?case by simp
next
  case (Cons k ks)
  let ?R = "MStr ''[REDACTED]''"
  have step: "redact_key acc k =
      map (\<lambda>(k', v). (k', if k' = k \<and> is_sensitive k' then ?R else v)) acc"
  proof (cases "is_sensitive k")
    case True
    with Cons.prems update_present [of acc k ?R] show ?thesis
      by (auto simp: redact_key_def)
  next
    case False
    then have "map (\<lambda>(k', v). (k', if k' = k \<and> is_sensitive k' then ?R else v)) acc = acc"
      by (intro map_idI) auto
    with False show ?thesis by (simp add: redact_key_def)
  qed
  have keys: "map fst (redact_key acc k) = map fst acc"
    unfolding step by (induction acc) auto
  have d: "distinct (map fst (redact_key acc k))" using Cons.prems(1) keys by simp
  have s: "set ks \<subseteq> fst ` set (redact_key acc k)"
    using Cons.prems(2) keys by (metis list.set_map set_subset_Cons subset_trans)
  have "foldl redact_key acc (k # ks) = foldl redact_key (redact_key acc k) ks" by simp
  also have "\<dots> = map (\<lambda>(k', v). (k', if k' \<in> set ks \<and> is_sensitive k' then ?R else v))
                      (redact_key acc k)"
    by (rule Cons.IH [OF d s])
  also have "\<dots> = map (\<lambda>(k', v). (k', if k' \<in> set (k # ks) \<and> is_sensitive k' then ?R else v)) acc"
    unfolding step by auto
  finally show ?case .
qed

text \<open>
  C10. For a metadata object (its keys distinct), the logger replaces by
  \<^verbatim>\<open>[REDACTED]\<close> the value of exactly those top-level keys whose lowercased name
  contains one of \<^verbatim>\<open>api_key\<close>, \<^verbatim>\<open>apikey\<close>, \<^verbatim>\<open>key\<close>, \<^verbatim>\<open>password\<close>, \<^verbatim>\<open>secret\<close>,
  \<^verbatim>\<open>token\<close>, and leaves every other entry as it is, whatever its value: a nested object is
  not looked into. The keys and their order are kept.
\<close>

theorem C10_redaction_is_shallow:
  "distinct (map fst m) \<Longrightarrow> sanitizeMetadata (Some m) = redact_top_level m"
proof -
  assume d: "distinct (map fst m)"
  have "set (map fst m) \<subseteq> fst ` set m" by simp
  from redact_keys_fold [OF d this]
  have "foldl redact_key m (map fst m) =
     map (\<lambda>(k, v). (k, if k \<in> set (map fst m) \<and> is_sensitive k then MStr ''[REDACTED]'' else v)) m"
    .
  also have "\<dots> = redact_top_level m"
    unfolding redact_top_level_def by (rule map_cong) (auto simp: is_sensitive_named rev_image_eqI)
  finally show ?thesis by (simp add: sanitizeMetadata_def)
qed

theorem C10_redaction_is_shallow_witness:
  "distinct (map fst sample_meta)
   \<and> sanitizeMetadata (Some sample_meta) =
       [(''user'', MObj [(''password'', MStr ''hunter2''), (''token'', MStr ''t'')]),
        (''apiKey'', MStr ''[REDACTED]''),
        (''sessionId'', MStr ''s1''),
        (''AUTH_TOKEN'', MStr ''[REDACTED]'')]"
proof -
  have d: "distinct (map fst sample_meta)"
    by (simp add: sample_meta_def)
  have r: "redact_top_level sample_meta =
       [(''user'', MObj [(''password'', MStr ''hunter2''), (''token'', MStr ''t'')]),
        (''apiKey'', MStr ''[REDACTED]''),
        (''sessionId'', MStr ''s1''),
        (''AUTH_TOKEN'', MStr ''[REDACTED]'')]"
    by (simp add: redact_top_level_def sample_meta_def named_sensitive_def toLowerCase_def
        lower_char_def upper_letters_def lower_letters_def)
  from C10_redaction_is_shallow [OF d] d r show ?thesis by simp
qed

end
